theory Spec2Isabelle
  imports Main "HOL-Library.Sublist"
begin

section \<open>Python strings, bytes and exceptions\<close>

text \<open>
  The exceptions the credential core can meet. Every \<^verbatim>\<open>try\<close> block of the modelled
  functions ends in \<^verbatim>\<open>except Exception\<close>, so a raised exception is a value \<open>Inl e\<close>
  until a handler turns it into the function's result; a function without a handler
  returns it.
\<close>

datatype py_exception =
    FileNotFoundError
  | SameFileError
  | JSONDecodeError
  | TypeError
  | KeyError
  | AttributeError
  | ConnectionError
  | UnicodeEncodeError
  | UnicodeDecodeError
  | BinasciiError
  | ValueError
  | InvalidToken
  | LibraryError string

text \<open>
  A Python \<^verbatim>\<open>str\<close> is a sequence of code points below \<open>0x110000\<close>, lone surrogates
  included; \<^verbatim>\<open>bytes\<close> are characters of eight bits. \<open>lit\<close> is the \<^verbatim>\<open>str\<close> of an ASCII
  literal of the source.
\<close>

type_synonym bytes = string
type_synonym py_str = "nat list"

definition ord :: "char \<Rightarrow> nat" where
  "ord c = of_char c"

definition chr :: "nat \<Rightarrow> char" where
  "chr n = char_of n"

definition lit :: "string \<Rightarrow> py_str" where
  "lit s = map ord s"

definition is_surrogate :: "nat \<Rightarrow> bool" where
  "is_surrogate c = (0xD800 \<le> c \<and> c \<le> 0xDFFF)"

definition is_str :: "py_str \<Rightarrow> bool" where
  "is_str s = list_all (\<lambda>c. c < 0x110000) s"

definition encodable :: "py_str \<Rightarrow> bool" where
  "encodable s = list_all (\<lambda>c. \<not> is_surrogate c) s"

subsection \<open>UTF-8\<close>

text \<open>
  \<^verbatim>\<open>str.encode()\<close>, and the encoder of a file opened in text mode, is UTF-8 and raises
  on a surrogate; \<^verbatim>\<open>bytes.decode()\<close>, and the decoder of a file opened in text mode, is
  the strict UTF-8 decoder, which accepts the shortest encoding of a code point that is
  no surrogate and nothing else.
\<close>

definition encode_cp :: "nat \<Rightarrow> py_exception + bytes" where
  "encode_cp c =
     (if c < 0x80 then Inr [chr c]
      else if c < 0x800 then Inr [chr (0xC0 + c div 64), chr (0x80 + c mod 64)]
      else if is_surrogate c then Inl UnicodeEncodeError
      else if c < 0x10000 then
        Inr [chr (0xE0 + c div 4096), chr (0x80 + c div 64 mod 64), chr (0x80 + c mod 64)]
      else if c < 0x110000 then
        Inr [chr (0xF0 + c div 262144), chr (0x80 + c div 4096 mod 64),
             chr (0x80 + c div 64 mod 64), chr (0x80 + c mod 64)]
      else Inl UnicodeEncodeError)"

fun utf8_encode :: "py_str \<Rightarrow> py_exception + bytes" where
  "utf8_encode [] = Inr []"
| "utf8_encode (c # cs) =
     (case encode_cp c of
        Inl e \<Rightarrow> Inl e
      | Inr bs \<Rightarrow> (case utf8_encode cs of Inl e \<Rightarrow> Inl e | Inr r \<Rightarrow> Inr (bs @ r)))"

definition is_cont :: "char \<Rightarrow> bool" where
  "is_cont b = (0x80 \<le> ord b \<and> ord b < 0xC0)"

definition decoded :: "nat \<Rightarrow> py_exception + py_str \<Rightarrow> py_exception + py_str" where
  "decoded c r = (case r of Inl e \<Rightarrow> Inl e | Inr cs \<Rightarrow> Inr (c # cs))"

fun utf8_decode :: "bytes \<Rightarrow> py_exception + py_str" where
  "utf8_decode [] = Inr []"
| "utf8_decode (b0 # bs) =
     (if ord b0 < 0x80 then decoded (ord b0) (utf8_decode bs)
      else if 0xC2 \<le> ord b0 \<and> ord b0 < 0xE0 then
        (case bs of
           b1 # r \<Rightarrow>
             if is_cont b1
             then decoded ((ord b0 - 0xC0) * 64 + (ord b1 - 0x80)) (utf8_decode r)
             else Inl UnicodeDecodeError
         | _ \<Rightarrow> Inl UnicodeDecodeError)
      else if 0xE0 \<le> ord b0 \<and> ord b0 < 0xF0 then
        (case bs of
           b1 # b2 # r \<Rightarrow>
             if is_cont b1 \<and> is_cont b2
                \<and> 0x800 \<le> (ord b0 - 0xE0) * 4096 + (ord b1 - 0x80) * 64 + (ord b2 - 0x80)
                \<and> \<not> is_surrogate ((ord b0 - 0xE0) * 4096 + (ord b1 - 0x80) * 64 + (ord b2 - 0x80))
             then decoded ((ord b0 - 0xE0) * 4096 + (ord b1 - 0x80) * 64 + (ord b2 - 0x80))
                    (utf8_decode r)
             else Inl UnicodeDecodeError
         | _ \<Rightarrow> Inl UnicodeDecodeError)
      else if 0xF0 \<le> ord b0 \<and> ord b0 < 0xF5 then
        (case bs of
           b1 # b2 # b3 # r \<Rightarrow>
             if is_cont b1 \<and> is_cont b2 \<and> is_cont b3
                \<and> 0x10000 \<le> (ord b0 - 0xF0) * 262144 + (ord b1 - 0x80) * 4096
                               + (ord b2 - 0x80) * 64 + (ord b3 - 0x80)
                \<and> (ord b0 - 0xF0) * 262144 + (ord b1 - 0x80) * 4096
                     + (ord b2 - 0x80) * 64 + (ord b3 - 0x80) < 0x110000
             then decoded ((ord b0 - 0xF0) * 262144 + (ord b1 - 0x80) * 4096
                             + (ord b2 - 0x80) * 64 + (ord b3 - 0x80)) (utf8_decode r)
             else Inl UnicodeDecodeError
         | _ \<Rightarrow> Inl UnicodeDecodeError)
      else Inl UnicodeDecodeError)"

definition ascii :: "bytes \<Rightarrow> bool" where
  "ascii bs = list_all (\<lambda>b. ord b < 128) bs"

section \<open>Process state: files and environment\<close>

text \<open>
  The credential core works on a directory \<^verbatim>\<open>config\<close> of regular files and on the
  process environment (\<^verbatim>\<open>os.environ\<close>). A file has its bytes and its permission bits;
  the file system maps a path to the file stored there. The model is a POSIX system
  whose text encoding is UTF-8 and on which the process may read and write every file
  of that directory.
\<close>

type_synonym path = string

record stored_file =
  content :: bytes
  mode :: nat

type_synonym filesystem = "path \<rightharpoonup> stored_file"

record world =
  environ :: "py_str \<rightharpoonup> py_str"
  files :: filesystem

definition LF :: nat where
  "LF = 0x0A"

definition CR :: nat where
  "CR = 0x0D"

definition newline :: char where
  "newline = CHR 0x0A"

text \<open>\<^verbatim>\<open>config_dir / ".env"\<close>, \<^verbatim>\<open>config_dir / "service_account.json"\<close> and
  \<^verbatim>\<open>config_dir / ".encryption_key"\<close> of \<^verbatim>\<open>SecureCredentialManager.__init__\<close>.\<close>

definition env_file :: path where
  "env_file = ''config/.env''"

definition service_account_file :: path where
  "service_account_file = ''config/service_account.json''"

definition key_file :: path where
  "key_file = ''config/.encryption_key''"

subsection \<open>Text files\<close>

text \<open>
  \<^verbatim>\<open>open(p, 'r').read()\<close> decodes the bytes of the file, raising on bytes that are no
  UTF-8, and reads with universal newlines: a carriage return followed by a line feed,
  and a carriage return alone, both arrive as one line feed.

  \<^verbatim>\<open>open(p, 'w')\<close> creates the file with the bits \<^verbatim>\<open>0o644\<close> (the usual umask) or
  empties the one that exists, keeping its bits; \<^verbatim>\<open>write(s)\<close> then encodes \<^verbatim>\<open>s\<close> and
  stores the bytes as they are. When the encoder raises, the file stays empty.
  \<^verbatim>\<open>os.chmod(p, 0o600)\<close> sets the bits to owner-only.
\<close>

definition mode_0o644 :: nat where
  "mode_0o644 = 420"

definition mode_0o600 :: nat where
  "mode_0o600 = 384"

fun universal_newlines :: "py_str \<Rightarrow> py_str" where
  "universal_newlines [] = []"
| "universal_newlines [c] = (if c = CR then [LF] else [c])"
| "universal_newlines (c # d # cs) =
     (if c = CR then
        (if d = LF then LF # universal_newlines cs else LF # universal_newlines (d # cs))
      else c # universal_newlines (d # cs))"

definition read_text :: "stored_file \<Rightarrow> py_exception + py_str" where
  "read_text f =
     (case utf8_decode (content f) of
        Inl e \<Rightarrow> Inl e
      | Inr s \<Rightarrow> Inr (universal_newlines s))"

definition open_write :: "filesystem \<Rightarrow> path \<Rightarrow> filesystem" where
  "open_write fs p =
     fs(p \<mapsto> \<lparr>content = [], mode = (case fs p of None \<Rightarrow> mode_0o644 | Some f \<Rightarrow> mode f)\<rparr>)"

definition write_text ::
  "filesystem \<Rightarrow> path \<Rightarrow> py_str \<Rightarrow> (py_exception + unit) \<times> filesystem" where
  "write_text fs p s =
     (case utf8_encode s of
        Inl e \<Rightarrow> (Inl e, open_write fs p)
      | Inr b \<Rightarrow>
          (Inr (), fs(p \<mapsto> \<lparr>content = b,
                              mode = (case fs p of None \<Rightarrow> mode_0o644 | Some f \<Rightarrow> mode f)\<rparr>)))"

definition open_read :: "filesystem \<Rightarrow> path \<Rightarrow> py_exception + py_str" where
  "open_read fs p = (case fs p of None \<Rightarrow> Inl FileNotFoundError | Some f \<Rightarrow> read_text f)"

text \<open>\<^verbatim>\<open>open(p, 'wb').write(b)\<close>, \<^verbatim>\<open>os.chmod(p, m)\<close> and \<^verbatim>\<open>shutil.copy2(src, dst)\<close>, which
  copies the bytes and the permission bits and refuses to copy a file onto itself.\<close>

definition write_bytes :: "filesystem \<Rightarrow> path \<Rightarrow> bytes \<Rightarrow> filesystem" where
  "write_bytes fs p b =
     fs(p \<mapsto> \<lparr>content = b, mode = (case fs p of None \<Rightarrow> mode_0o644 | Some f \<Rightarrow> mode f)\<rparr>)"

definition chmod :: "filesystem \<Rightarrow> path \<Rightarrow> nat \<Rightarrow> py_exception + filesystem" where
  "chmod fs p m =
     (case fs p of None \<Rightarrow> Inl FileNotFoundError | Some f \<Rightarrow> Inr (fs(p \<mapsto> f\<lparr>mode := m\<rparr>)))"

definition copy2 :: "filesystem \<Rightarrow> path \<Rightarrow> path \<Rightarrow> py_exception + filesystem" where
  "copy2 fs src dst =
     (case fs src of
        None \<Rightarrow> Inl FileNotFoundError
      | Some f \<Rightarrow> if src = dst then Inl SameFileError else Inr (fs(dst \<mapsto> f)))"

subsection \<open>\<^verbatim>\<open>str.split('\n')\<close>, \<^verbatim>\<open>'\n'.join\<close>, \<^verbatim>\<open>str.startswith\<close>\<close>

fun split_nl :: "py_str \<Rightarrow> py_str list" where
  "split_nl [] = [[]]"
| "split_nl (c # cs) =
     (if c = LF then [] # split_nl cs
      else (case split_nl cs of [] \<Rightarrow> [[c]] | l # ls \<Rightarrow> (c # l) # ls))"

fun join_nl :: "py_str list \<Rightarrow> py_str" where
  "join_nl [] = []"
| "join_nl [l] = l"
| "join_nl (l # m # ls) = l @ LF # join_nl (m # ls)"

definition startswith :: "py_str \<Rightarrow> py_str \<Rightarrow> bool" where
  "startswith line p = prefix p line"

section \<open>CredentialStore: \<^verbatim>\<open>_update_env_var\<close> and the environment overlay\<close>

text \<open>
  The loop of \<^verbatim>\<open>_update_env_var\<close>: the first line that starts with \<^verbatim>\<open>key=\<close> is
  replaced and the loop breaks; the result also tells whether a line was replaced
  (the flag \<^verbatim>\<open>updated\<close>).
\<close>

fun replace_first :: "py_str \<Rightarrow> py_str \<Rightarrow> py_str list \<Rightarrow> py_str list \<times> bool" where
  "replace_first k v [] = ([], False)"
| "replace_first k v (l # ls) =
     (if startswith l (k @ lit ''='') then ((k @ lit ''='' @ v) # ls, True)
      else (case replace_first k v ls of (ls', u) \<Rightarrow> (l # ls', u)))"

definition update_lines :: "py_str \<Rightarrow> py_str \<Rightarrow> py_str list \<Rightarrow> py_str list" where
  "update_lines k v ls =
     (case replace_first k v ls of
        (ls', updated) \<Rightarrow> if updated then ls' else ls' @ [k @ lit ''='' @ v])"

text \<open>
  \<^verbatim>\<open>_update_env_var\<close> has no handler: an exception of the read leaves the files as they
  are, an exception of the write leaves the backing file empty, and both leave the
  function.
\<close>

definition update_env_var ::
  "filesystem \<Rightarrow> py_str \<Rightarrow> py_str \<Rightarrow> (py_exception + unit) \<times> filesystem" where
  "update_env_var fs k v =
     (case (case fs env_file of None \<Rightarrow> Inr [] | Some f \<Rightarrow> read_text f) of
        Inl e \<Rightarrow> (Inl e, fs)
      | Inr env_content \<Rightarrow>
          write_text fs env_file (join_nl (update_lines k v (split_nl env_content))))"

definition getenv :: "(py_str \<rightharpoonup> py_str) \<Rightarrow> py_str \<Rightarrow> py_str \<Rightarrow> py_str" where
  "getenv e k d = (case e k of None \<Rightarrow> d | Some v \<Rightarrow> v)"

record telegram_credentials =
  bot_token :: py_str
  chat_id :: py_str

definition get_telegram_credentials :: "world \<Rightarrow> telegram_credentials" where
  "get_telegram_credentials w =
     \<lparr>bot_token = getenv (environ w) (lit ''TELEGRAM_BOT_TOKEN'') [],
      chat_id = getenv (environ w) (lit ''TELEGRAM_CHAT_ID'') []\<rparr>"

text \<open>\<^verbatim>\<open>_update_env_var\<close> as a step of the process: only the files change.\<close>

definition do_update_env_var ::
  "py_str \<Rightarrow> py_str \<Rightarrow> world \<Rightarrow> (py_exception + unit) \<times> world" where
  "do_update_env_var k v w =
     (case update_env_var (files w) k v of (r, fs') \<Rightarrow> (r, w\<lparr>files := fs'\<rparr>))"

text \<open>The lines of the backing file as a reader of the file sees them (none when the file
  is absent or is no text), and those that belong to a key.\<close>

definition env_lines :: "filesystem \<Rightarrow> py_str list" where
  "env_lines fs =
     (case fs env_file of
        None \<Rightarrow> []
      | Some f \<Rightarrow> (case read_text f of Inl e \<Rightarrow> [] | Inr s \<Rightarrow> split_nl s))"

definition lines_for :: "py_str \<Rightarrow> py_str list \<Rightarrow> py_str list" where
  "lines_for k ls = filter (\<lambda>l. startswith l (k @ lit ''='')) ls"

definition nl_free :: "py_str \<Rightarrow> bool" where
  "nl_free s = (LF \<notin> set s \<and> CR \<notin> set s)"

definition env_content :: "filesystem \<Rightarrow> py_str" where
  "env_content fs =
     (case fs env_file of
        None \<Rightarrow> []
      | Some f \<Rightarrow> (case read_text f of Inl e \<Rightarrow> [] | Inr s \<Rightarrow> s))"

text \<open>The backing file is absent, or its bytes are UTF-8.\<close>

definition env_is_text :: "filesystem \<Rightarrow> bool" where
  "env_is_text fs =
     (case fs env_file of
        None \<Rightarrow> True
      | Some f \<Rightarrow> (case utf8_decode (content f) of Inl e \<Rightarrow> False | Inr s \<Rightarrow> True))"

section \<open>JSON values\<close>

text \<open>
  What \<^verbatim>\<open>json.load\<close> and \<^verbatim>\<open>response.json()\<close> return: \<open>JObj\<close> holds the items of a
  \<^verbatim>\<open>dict\<close> (each key once), \<open>JArr\<close> a \<^verbatim>\<open>list\<close>, \<open>JNum\<close> a number.
\<close>

datatype json =
    JNull
  | JBool bool
  | JNum int
  | JStr py_str
  | JArr "json list"
  | JObj "(py_str \<times> json) list"

text \<open>\<^verbatim>\<open>name in value\<close>: a key of a dict, an element of a list, a substring of a string;
  any other value is not iterable.\<close>

fun py_contains :: "py_str \<Rightarrow> json \<Rightarrow> py_exception + bool" where
  "py_contains name (JObj kvs) = Inr (name \<in> fst ` set kvs)"
| "py_contains name (JArr xs) = Inr (JStr name \<in> set xs)"
| "py_contains name (JStr s) = Inr (sublist name s)"
| "py_contains name _ = Inl TypeError"

text \<open>\<^verbatim>\<open>value[name]\<close> with a string \<^verbatim>\<open>name\<close>: only a dict can be indexed by a string.\<close>

fun py_getitem :: "json \<Rightarrow> py_str \<Rightarrow> py_exception + json" where
  "py_getitem (JObj kvs) name =
     (case map_of kvs name of None \<Rightarrow> Inl KeyError | Some v \<Rightarrow> Inr v)"
| "py_getitem _ name = Inl TypeError"

text \<open>\<^verbatim>\<open>token_data.get(name, default)\<close>; only a dict has \<^verbatim>\<open>get\<close>.\<close>

fun py_get :: "json \<Rightarrow> py_str \<Rightarrow> json \<Rightarrow> py_exception + json" where
  "py_get (JObj kvs) name d = Inr (case map_of kvs name of None \<Rightarrow> d | Some v \<Rightarrow> v)"
| "py_get _ name d = Inl AttributeError"

text \<open>\<^verbatim>\<open>value[:30]\<close>: strings and lists can be sliced, nothing else.\<close>

fun py_slice :: "json \<Rightarrow> py_exception + json" where
  "py_slice (JStr s) = Inr (JStr (take 30 s))"
| "py_slice (JArr xs) = Inr (JArr (take 30 xs))"
| "py_slice _ = Inl TypeError"

text \<open>\<^verbatim>\<open>all(field in data for field in fields)\<close>, which stops at the first field that is
  missing and lets an exception of \<^verbatim>\<open>in\<close> through.\<close>

fun all_in :: "py_str list \<Rightarrow> json \<Rightarrow> py_exception + bool" where
  "all_in [] d = Inr True"
| "all_in (f # fs) d =
     (case py_contains f d of
        Inl e \<Rightarrow> Inl e
      | Inr b \<Rightarrow> if b then all_in fs d else Inr False)"

text \<open>The text an f-string makes of a value: a string as it is, any other value as
  \<open>render\<close> (Python's \<^verbatim>\<open>str\<close>) prints it.\<close>

definition format_value :: "(json \<Rightarrow> py_str) \<Rightarrow> json \<Rightarrow> py_str" where
  "format_value render v = (case v of JStr s \<Rightarrow> s | _ \<Rightarrow> render v)"

section \<open>KeyManager\<close>

subsection \<open>\<^verbatim>\<open>_get_or_create_encryption_key\<close>\<close>

text \<open>
  \<open>fresh\<close> is what \<^verbatim>\<open>Fernet.generate_key()\<close> would return if it were called; the function
  returns the key and the file system it leaves.
\<close>

definition get_or_create_encryption_key ::
  "filesystem \<Rightarrow> bytes \<Rightarrow> (py_exception + bytes) \<times> filesystem" where
  "get_or_create_encryption_key fs fresh =
     (case fs key_file of
        Some f \<Rightarrow> (Inr (content f), fs)
      | None \<Rightarrow>
          (let fs1 = write_bytes fs key_file fresh
           in case chmod fs1 key_file mode_0o600 of
                Inl e \<Rightarrow> (Inl e, fs1)
              | Inr fs2 \<Rightarrow> (Inr fresh, fs2)))"

subsection \<open>Base64\<close>

text \<open>
  \<^verbatim>\<open>base64.b64encode\<close> (the standard alphabet, padded with \<^verbatim>\<open>=\<close>) and
  \<^verbatim>\<open>base64.b64decode\<close>, which is \<^verbatim>\<open>binascii.a2b_base64\<close> in its lenient mode: a loop
  over the input that keeps the position in the current group of four, the bits left
  over from the last character and the number of padding characters seen; it skips
  every character outside the alphabet, stops at sufficient padding, and fails when the
  input ends inside a group.
\<close>

definition PAD :: char where
  "PAD = CHR ''=''"

definition b64_char :: "nat \<Rightarrow> char" where
  "b64_char i =
     (if i < 26 then chr (65 + i)
      else if i < 52 then chr (71 + i)
      else if i < 62 then chr (i - 4)
      else if i = 62 then CHR ''+''
      else CHR ''/'')"

definition b64_index :: "char \<Rightarrow> nat option" where
  "b64_index c =
     (if 65 \<le> ord c \<and> ord c \<le> 90 then Some (ord c - 65)
      else if 97 \<le> ord c \<and> ord c \<le> 122 then Some (ord c - 71)
      else if 48 \<le> ord c \<and> ord c \<le> 57 then Some (ord c + 4)
      else if ord c = 43 then Some 62
      else if ord c = 47 then Some 63
      else None)"

fun b64encode :: "bytes \<Rightarrow> bytes" where
  "b64encode [] = []"
| "b64encode [a] = [b64_char (ord a div 4), b64_char (ord a mod 4 * 16), PAD, PAD]"
| "b64encode [a, b] =
     [b64_char (ord a div 4), b64_char (ord a mod 4 * 16 + ord b div 16),
      b64_char (ord b mod 16 * 4), PAD]"
| "b64encode (a # b # c # r) =
     b64_char (ord a div 4) # b64_char (ord a mod 4 * 16 + ord b div 16)
       # b64_char (ord b mod 16 * 4 + ord c div 64) # b64_char (ord c mod 64) # b64encode r"

definition emitted :: "char \<Rightarrow> py_exception + bytes \<Rightarrow> py_exception + bytes" where
  "emitted b r = (case r of Inl e \<Rightarrow> Inl e | Inr bs \<Rightarrow> Inr (b # bs))"

fun a2b_base64 :: "nat \<Rightarrow> nat \<Rightarrow> nat \<Rightarrow> bytes \<Rightarrow> py_exception + bytes" where
  "a2b_base64 quad_pos leftchar pads [] =
     (if quad_pos = 0 then Inr [] else Inl BinasciiError)"
| "a2b_base64 quad_pos leftchar pads (c # cs) =
     (if c = PAD then
        (if 2 \<le> quad_pos \<and> 4 \<le> quad_pos + (pads + 1) then Inr []
         else a2b_base64 quad_pos leftchar (if 2 \<le> quad_pos then pads + 1 else pads) cs)
      else case b64_index c of
        None \<Rightarrow> a2b_base64 quad_pos leftchar pads cs
      | Some this_ch \<Rightarrow>
          if quad_pos = 0 then a2b_base64 1 this_ch 0 cs
          else if quad_pos = 1 then
            emitted (chr (leftchar * 4 + this_ch div 16)) (a2b_base64 2 (this_ch mod 16) 0 cs)
          else if quad_pos = 2 then
            emitted (chr (leftchar * 16 + this_ch div 4)) (a2b_base64 3 (this_ch mod 4) 0 cs)
          else emitted (chr (leftchar * 64 + this_ch)) (a2b_base64 0 0 0 cs))"

definition b64decode :: "bytes \<Rightarrow> py_exception + bytes" where
  "b64decode s = a2b_base64 0 0 0 s"

subsection \<open>\<^verbatim>\<open>encrypt_credential\<close> and \<^verbatim>\<open>decrypt_credential\<close>\<close>

text \<open>
  The library's \<^verbatim>\<open>Fernet\<close> is a parameter of the model: \<open>fernet_new\<close> is the
  constructor, which rejects a malformed key; \<open>fernet_encrypt\<close> builds a token from the
  plaintext and from what the call draws for itself (the nonce and the time);
  \<open>fernet_decrypt\<close> returns the plaintext of a token or raises.
\<close>

record ('f, 'r) fernet =
  fernet_new :: "bytes \<Rightarrow> py_exception + 'f"
  fernet_encrypt :: "'f \<Rightarrow> 'r \<Rightarrow> bytes \<Rightarrow> bytes"
  fernet_decrypt :: "'f \<Rightarrow> bytes \<Rightarrow> py_exception + bytes"

definition encrypt_credential ::
  "('f, 'r) fernet \<Rightarrow> bytes \<Rightarrow> 'r \<Rightarrow> py_str \<Rightarrow> py_exception + py_str" where
  "encrypt_credential lib encryption_key rnd v =
     (case fernet_new lib encryption_key of
        Inl e \<Rightarrow> Inl e
      | Inr f \<Rightarrow>
         (case utf8_encode v of
            Inl e \<Rightarrow> Inl e
          | Inr plain \<Rightarrow> utf8_decode (b64encode (fernet_encrypt lib f rnd plain))))"

definition decrypt_credential ::
  "('f, 'r) fernet \<Rightarrow> bytes \<Rightarrow> py_str \<Rightarrow> py_exception + py_str" where
  "decrypt_credential lib encryption_key encrypted_value =
     (case fernet_new lib encryption_key of
        Inl e \<Rightarrow> Inl e
      | Inr f \<Rightarrow>
         (case utf8_encode encrypted_value of
            Inl e \<Rightarrow> Inl e
          | Inr raw \<Rightarrow>
             (case b64decode raw of
                Inl e \<Rightarrow> Inl e
              | Inr encrypted_bytes \<Rightarrow>
                 (case fernet_decrypt lib f encrypted_bytes of
                    Inl e \<Rightarrow> Inl e
                  | Inr plain \<Rightarrow> utf8_decode plain))))"

section \<open>ServiceAccountValidator and CredentialFacade\<close>

definition required_fields :: "py_str list" where
  "required_fields = [lit ''type'', lit ''project_id'', lit ''private_key'', lit ''client_email'']"

text \<open>
  \<^verbatim>\<open>set_service_account_credentials\<close>. \<open>json_load\<close> is \<^verbatim>\<open>json.load\<close> on the text of a
  file. The body of the \<^verbatim>\<open>try\<close> block returns the value or the exception together with
  the file system reached at that point; the handler maps every exception to \<^verbatim>\<open>False\<close>.
\<close>

definition set_service_account_credentials_try ::
  "(py_str \<Rightarrow> py_exception + json) \<Rightarrow> filesystem \<Rightarrow> path
     \<Rightarrow> (py_exception + bool) \<times> filesystem" where
  "set_service_account_credentials_try json_load fs source_path =
     (if fs source_path = None then (Inr False, fs)
      else case copy2 fs source_path service_account_file of
        Inl e \<Rightarrow> (Inl e, fs)
      | Inr fs1 \<Rightarrow>
         (case chmod fs1 service_account_file mode_0o600 of
            Inl e \<Rightarrow> (Inl e, fs1)
          | Inr fs2 \<Rightarrow>
             (case open_read fs2 service_account_file of
                Inl e \<Rightarrow> (Inl e, fs2)
              | Inr text \<Rightarrow>
                 (case json_load text of
                    Inl e \<Rightarrow> (Inl e, fs2)
                  | Inr sa_data \<Rightarrow>
                     (case all_in required_fields sa_data of
                        Inl e \<Rightarrow> (Inl e, fs2)
                      | Inr ok \<Rightarrow>
                         if \<not> ok then (Inr False, fs2)
                         else (case py_getitem sa_data (lit ''client_email'') of
                                 Inl e \<Rightarrow> (Inl e, fs2)
                               | Inr email \<Rightarrow>
                                  (case update_env_var fs2 (lit ''USE_SERVICE_ACCOUNT'')
                                          (lit ''true'') of
                                     (Inl e, fs3) \<Rightarrow> (Inl e, fs3)
                                   | (Inr u, fs3) \<Rightarrow>
                                      (case update_env_var fs3 (lit ''SERVICE_ACCOUNT_FILE'')
                                              (lit service_account_file) of
                                         (Inl e, fs4) \<Rightarrow> (Inl e, fs4)
                                       | (Inr u', fs4) \<Rightarrow> (Inr True, fs4)))))))))"

definition set_service_account_credentials ::
  "(py_str \<Rightarrow> py_exception + json) \<Rightarrow> filesystem \<Rightarrow> path \<Rightarrow> bool \<times> filesystem" where
  "set_service_account_credentials json_load fs source_path =
     (case set_service_account_credentials_try json_load fs source_path of
        (Inl e, fs') \<Rightarrow> (False, fs')
      | (Inr b, fs') \<Rightarrow> (b, fs'))"

definition scopes :: "string list" where
  "scopes = [''https://www.googleapis.com/auth/gmail.send'',
             ''https://www.googleapis.com/auth/gmail.readonly'',
             ''https://www.googleapis.com/auth/drive.file'',
             ''https://www.googleapis.com/auth/spreadsheets'']"

text \<open>
  \<^verbatim>\<open>get_service_account_credentials\<close>. \<open>from_info\<close> is what the Google library makes of
  the text of a key-material file and a list of scopes: a credentials object, or an
  exception. \<^verbatim>\<open>from_service_account_file\<close> opens the file and hands its text on. The
  function returns \<open>Inr\<close> of an optional credentials object; \<open>Inl\<close> would be an exception
  that leaves the function.
\<close>

definition from_service_account_file ::
  "(py_str \<Rightarrow> string list \<Rightarrow> py_exception + 'c) \<Rightarrow> filesystem \<Rightarrow> path \<Rightarrow> string list
     \<Rightarrow> py_exception + 'c" where
  "from_service_account_file from_info fs p sc =
     (case open_read fs p of Inl e \<Rightarrow> Inl e | Inr text \<Rightarrow> from_info text sc)"

definition get_service_account_credentials_try ::
  "(py_str \<Rightarrow> string list \<Rightarrow> py_exception + 'c) \<Rightarrow> filesystem \<Rightarrow> py_exception + 'c option" where
  "get_service_account_credentials_try from_info fs =
     (if fs service_account_file = None then Inr None
      else case from_service_account_file from_info fs service_account_file scopes of
             Inl e \<Rightarrow> Inl e
           | Inr credentials \<Rightarrow> Inr (Some credentials))"

definition get_service_account_credentials ::
  "(py_str \<Rightarrow> string list \<Rightarrow> py_exception + 'c) \<Rightarrow> filesystem \<Rightarrow> py_exception + 'c option" where
  "get_service_account_credentials from_info fs =
     (case get_service_account_credentials_try from_info fs of
        Inl e \<Rightarrow> Inr None
      | Inr r \<Rightarrow> Inr r)"

record validation =
  service_account :: bool
  telegram :: bool

text \<open>
  \<^verbatim>\<open>validate_all_credentials\<close>: \<^verbatim>\<open>sa_creds is not None\<close>, and
  \<^verbatim>\<open>bool(bot_token and chat_id)\<close>, which is true when both strings are non-empty.
\<close>

definition validate_all_credentials ::
  "(py_str \<Rightarrow> string list \<Rightarrow> py_exception + 'c) \<Rightarrow> world \<Rightarrow> py_exception + validation" where
  "validate_all_credentials from_info w =
     (case get_service_account_credentials from_info (files w) of
        Inl e \<Rightarrow> Inl e
      | Inr sa_creds \<Rightarrow>
         (let tg_creds = get_telegram_credentials w
          in Inr \<lparr>service_account = (sa_creds \<noteq> None),
                  telegram = (bot_token tg_creds \<noteq> [] \<and> chat_id tg_creds \<noteq> [])\<rparr>))"

text \<open>\<^verbatim>\<open>set_service_account_credentials\<close> as a step of the process.\<close>

definition do_set_service_account_credentials ::
  "(py_str \<Rightarrow> py_exception + json) \<Rightarrow> path \<Rightarrow> world \<Rightarrow> bool \<times> world" where
  "do_set_service_account_credentials json_load source_path w =
     (case set_service_account_credentials json_load (files w) source_path of
        (b, fs') \<Rightarrow> (b, w\<lparr>files := fs'\<rparr>))"

text \<open>
  The readiness of the two subsystems: the Google loader accepts the text of a file;
  key material is stored and the loader accepts it; both messaging variables are
  non-empty.
\<close>

definition loads :: "(py_str \<Rightarrow> string list \<Rightarrow> py_exception + 'c) \<Rightarrow> stored_file \<Rightarrow> bool" where
  "loads from_info f =
     (case read_text f of
        Inl e \<Rightarrow> False
      | Inr text \<Rightarrow> (case from_info text scopes of Inl e \<Rightarrow> False | Inr c \<Rightarrow> True))"

definition sa_ready :: "(py_str \<Rightarrow> string list \<Rightarrow> py_exception + 'c) \<Rightarrow> filesystem \<Rightarrow> bool" where
  "sa_ready from_info fs =
     (case fs service_account_file of None \<Rightarrow> False | Some f \<Rightarrow> loads from_info f)"

definition tg_ready :: "(py_str \<rightharpoonup> py_str) \<Rightarrow> bool" where
  "tg_ready e =
     (getenv e (lit ''TELEGRAM_BOT_TOKEN'') [] \<noteq> [] \<and> getenv e (lit ''TELEGRAM_CHAT_ID'') [] \<noteq> [])"

section \<open>OAuthTokenExchanger\<close>

text \<open>
  \<^verbatim>\<open>update_env_with_refresh_token\<close>. For each of the two keys, in the order of the dict:
  when \<^verbatim>\<open>key=\<close> occurs anywhere in the content, the first line that starts with it is
  replaced (if there is one); otherwise a new line is added to the content. The handler
  maps an exception of the read or of the write to \<^verbatim>\<open>False\<close>.
\<close>

definition token_keys :: "py_str list" where
  "token_keys = [lit ''GMAIL_REFRESH_TOKEN'', lit ''GDRIVE_REFRESH_TOKEN'']"

definition update_key :: "py_str \<Rightarrow> py_str \<Rightarrow> py_str \<Rightarrow> py_str" where
  "update_key v c k =
     (if sublist (k @ lit ''='') c
      then join_nl (fst (replace_first k v (split_nl c)))
      else c @ [LF] @ k @ lit ''='' @ v)"

definition update_env_with_refresh_token :: "filesystem \<Rightarrow> py_str \<Rightarrow> bool \<times> filesystem" where
  "update_env_with_refresh_token fs refresh_token =
     (case open_read fs env_file of
        Inl e \<Rightarrow> (False, fs)
      | Inr c \<Rightarrow>
         (case write_text fs env_file (foldl (update_key refresh_token) c token_keys) of
            (Inl e, fs') \<Rightarrow> (False, fs')
          | (Inr u, fs') \<Rightarrow> (True, fs')))"

text \<open>
  The answer of the token endpoint: its status code and what \<^verbatim>\<open>response.json()\<close>
  returns or raises. \<^verbatim>\<open>requests.post\<close> itself may raise instead of answering.
\<close>

record http_response =
  status_code :: int
  response_json :: "py_exception + json"

text \<open>
  \<^verbatim>\<open>exchange_for_refresh_token\<close>, given what \<^verbatim>\<open>requests.post\<close> did. The result \<^verbatim>\<open>True\<close>
  is the state COMPLETE of the exchange, \<^verbatim>\<open>False\<close> the state FAILED.
\<close>

definition exchange_for_refresh_token_try ::
  "(json \<Rightarrow> py_str) \<Rightarrow> filesystem \<Rightarrow> py_exception + http_response
     \<Rightarrow> (py_exception + bool) \<times> filesystem" where
  "exchange_for_refresh_token_try render fs post =
     (case post of
        Inl e \<Rightarrow> (Inl e, fs)
      | Inr response \<Rightarrow>
         if status_code response = 200 then
           (case response_json response of
              Inl e \<Rightarrow> (Inl e, fs)
            | Inr token_data \<Rightarrow>
               (case py_contains (lit ''refresh_token'') token_data of
                  Inl e \<Rightarrow> (Inl e, fs)
                | Inr present \<Rightarrow>
                   if present then
                     (case py_getitem token_data (lit ''refresh_token'') of
                        Inl e \<Rightarrow> (Inl e, fs)
                      | Inr refresh_token \<Rightarrow>
                         (case py_get token_data (lit ''access_token'') (JStr (lit ''N/A'')) of
                            Inl e \<Rightarrow> (Inl e, fs)
                          | Inr access_token \<Rightarrow>
                             (case py_slice refresh_token of
                                Inl e \<Rightarrow> (Inl e, fs)
                              | Inr r30 \<Rightarrow>
                                 (case py_slice access_token of
                                    Inl e \<Rightarrow> (Inl e, fs)
                                  | Inr a30 \<Rightarrow>
                                     (case update_env_with_refresh_token fs
                                             (format_value render refresh_token) of
                                        (saved, fs') \<Rightarrow> (Inr saved, fs'))))))
                   else (Inr False, fs)))
         else (Inr False, fs))"

definition exchange_for_refresh_token ::
  "(json \<Rightarrow> py_str) \<Rightarrow> filesystem \<Rightarrow> py_exception + http_response \<Rightarrow> bool \<times> filesystem" where
  "exchange_for_refresh_token render fs post =
     (case exchange_for_refresh_token_try render fs post of
        (Inl e, fs') \<Rightarrow> (False, fs')
      | (Inr b, fs') \<Rightarrow> (b, fs'))"

definition has_refresh_token :: "json \<Rightarrow> bool" where
  "has_refresh_token d =
     (case d of JObj kvs \<Rightarrow> map_of kvs (lit ''refresh_token'') \<noteq> None | _ \<Rightarrow> False)"

section \<open>Sample inputs\<close>

text \<open>Backing files, key-material files with a JSON reader and a loader for them, answers
  of the token endpoint and a stand-in for the encryption library, for the concrete
  instances below.\<close>

definition fs_dup :: filesystem where
  "fs_dup = [env_file \<mapsto> \<lparr>content = ''K=a'' @ [newline] @ ''K=b'', mode = mode_0o644\<rparr>]"

definition fs_one :: filesystem where
  "fs_one = [env_file \<mapsto> \<lparr>content = ''A=1'' @ [newline] @ ''K=old'', mode = mode_0o644\<rparr>]"

definition fs_with_key :: filesystem where
  "fs_with_key = [key_file \<mapsto> \<lparr>content = ''k0'', mode = mode_0o600\<rparr>]"

definition fs_without_key :: filesystem where
  "fs_without_key = [env_file \<mapsto> \<lparr>content = ''A=1'', mode = mode_0o644\<rparr>]"

definition partial_key_text :: bytes where
  \<open>partial_key_text =
     ''{"type": "service_account", "project_id": "demo", "client_email": "bot@demo.iam"}''\<close>

definition full_key_text :: bytes where
  \<open>full_key_text =
     ''{"type": "service_account", "project_id": "demo", "private_key": "k", "client_email": "bot@demo.iam"}''\<close>

text \<open>\<^verbatim>\<open>json.load\<close> on the two sample texts.\<close>

definition sample_json_load :: "py_str \<Rightarrow> py_exception + json" where
  "sample_json_load text =
     (if text = lit partial_key_text then
        Inr (JObj [(lit ''type'', JStr (lit ''service_account'')),
                   (lit ''project_id'', JStr (lit ''demo'')),
                   (lit ''client_email'', JStr (lit ''bot@demo.iam''))])
      else if text = lit full_key_text then
        Inr (JObj [(lit ''type'', JStr (lit ''service_account'')),
                   (lit ''project_id'', JStr (lit ''demo'')),
                   (lit ''private_key'', JStr (lit ''k'')),
                   (lit ''client_email'', JStr (lit ''bot@demo.iam''))])
      else Inl JSONDecodeError)"

text \<open>The Google loader on the sample texts: it asks for the fields
  \<^verbatim>\<open>client_email\<close> and \<^verbatim>\<open>token_uri\<close> and for a private key it can parse; neither
  sample text has a \<^verbatim>\<open>token_uri\<close>, and a text that is no JSON is refused as well, so
  on every text that \<^verbatim>\<open>sample_json_load\<close> knows, and on every text it refuses, the
  loader raises a \<^verbatim>\<open>ValueError\<close>. The theorems below are stated for every loader; this
  one serves the concrete inputs only.\<close>

definition sample_from_info :: "py_str \<Rightarrow> string list \<Rightarrow> py_exception + unit" where
  "sample_from_info text sc = Inl ValueError"

definition fs_partial_upload :: filesystem where
  "fs_partial_upload = [''upload.json'' \<mapsto> \<lparr>content = partial_key_text, mode = mode_0o644\<rparr>]"

definition fs_full_upload :: filesystem where
  "fs_full_upload = [''upload.json'' \<mapsto> \<lparr>content = full_key_text, mode = mode_0o644\<rparr>]"

definition w_fresh :: world where
  "w_fresh = \<lparr>environ = Map.empty, files = fs_full_upload\<rparr>"

definition w_configured :: world where
  "w_configured = snd (do_set_service_account_credentials sample_json_load ''upload.json'' w_fresh)"

definition fs_env_a :: filesystem where
  "fs_env_a = [env_file \<mapsto> \<lparr>content = ''A=1'', mode = mode_0o600\<rparr>]"

definition empty_token_response :: http_response where
  "empty_token_response =
     \<lparr>status_code = 200,
      response_json = Inr (JObj [(lit ''access_token'', JStr (lit ''ya29'')),
                                 (lit ''refresh_token'', JStr [])])\<rparr>"

definition good_token_response :: http_response where
  "good_token_response =
     \<lparr>status_code = 200,
      response_json = Inr (JObj [(lit ''access_token'', JStr (lit ''ya29'')),
                                 (lit ''refresh_token'', JStr (lit ''1//0g''))])\<rparr>"

definition denied_response :: http_response where
  "denied_response =
     \<lparr>status_code = 400, response_json = Inr (JObj [(lit ''error'', JStr (lit ''invalid_grant''))])\<rparr>"

definition no_refresh_response :: http_response where
  "no_refresh_response =
     \<lparr>status_code = 200, response_json = Inr (JObj [(lit ''access_token'', JStr (lit ''ya29''))])\<rparr>"

definition html_response :: http_response where
  "html_response = \<lparr>status_code = 200, response_json = Inl JSONDecodeError\<rparr>"

definition fs_commented :: filesystem where
  "fs_commented =
     [env_file \<mapsto> \<lparr>content = ''# GMAIL_REFRESH_TOKEN='' @ [newline] @ ''GDRIVE_REFRESH_TOKEN=old'',
                    mode = mode_0o600\<rparr>]"

definition fs_both_commented :: filesystem where
  "fs_both_commented =
     [env_file \<mapsto> \<lparr>content = ''# GMAIL_REFRESH_TOKEN='' @ [newline] @ ''# GDRIVE_REFRESH_TOKEN='',
                    mode = mode_0o600\<rparr>]"

text \<open>A stand-in for the encryption library: the token is the plaintext behind a nonce
  of one byte.\<close>

definition toy_fernet :: "(bytes, char) fernet" where
  "toy_fernet =
     \<lparr>fernet_new = (\<lambda>k. if length k = 44 then Inr k else Inl ValueError),
      fernet_encrypt = (\<lambda>f nonce plain. nonce # plain),
      fernet_decrypt = (\<lambda>f token. case token of [] \<Rightarrow> Inl InvalidToken | n # plain \<Rightarrow> Inr plain)\<rparr>"

definition toy_key :: bytes where
  "toy_key = ''AAAAAAAAAAAAAAAAAAAAAAAAAAAAAAAAAAAAAAAAAAA=''"


section \<open>Characters and UTF-8\<close>

lemma ord_chr: "n < 256 \<Longrightarrow> ord (chr n) = n"
  by (simp add: ord_def chr_def)

lemma chr_ord [simp]: "chr (ord c) = c"
  by (simp add: ord_def chr_def)

lemma ord_less [simp]: "ord c < 256"
  by (simp add: ord_def)

lemma lit_eq_iff [simp]: "lit a = lit b \<longleftrightarrow> a = b"
proof
  assume "lit a = lit b"
  then show "a = b"
    unfolding lit_def by (rule map_injective) (simp add: inj_def ord_def)
qed simp

lemma lit_simps: "lit [] = []" "lit (c # cs) = ord c # lit cs" "lit (a @ b) = lit a @ lit b"
  by (simp_all add: lit_def)

lemma valid_iff:
  "is_str s \<and> encodable s \<longleftrightarrow> (\<forall>c\<in>set s. c < 0x110000 \<and> \<not> is_surrogate c)"
  by (auto simp: is_str_def encodable_def list_all_iff)

lemma valid_lit: "is_str (lit s)" "encodable (lit s)"
proof -
  have "\<forall>c\<in>set (lit s). c < 0x110000 \<and> \<not> is_surrogate c"
  proof
    fix c assume "c \<in> set (lit s)"
    then obtain b where "c = ord b" by (auto simp: lit_def)
    then have "c < 256" by simp
    then show "c < 0x110000 \<and> \<not> is_surrogate c" by (simp add: is_surrogate_def)
  qed
  then show "is_str (lit s)" "encodable (lit s)" using valid_iff [of "lit s"] by blast+
qed

lemma mul64: "(q::nat) div 64 * 4096 + q mod 64 * 64 = q * 64"
proof -
  have "(q div 64 * 64 + q mod 64) * 64 = q * 64" by simp
  then show ?thesis by (simp only: distrib_right mult.assoc)
qed

lemma split3: "(c::nat) div 4096 * 4096 + c div 64 mod 64 * 64 + c mod 64 = c"
proof -
  have "c div 4096 = c div 64 div 64" by (simp add: div_mult2_eq)
  then show ?thesis using mul64 [of "c div 64"] by simp
qed

lemma mul4096: "(q::nat) div 64 * 262144 + q mod 64 * 4096 = q * 4096"
proof -
  have "(q div 64 * 64 + q mod 64) * 4096 = q * 4096" by simp
  then show ?thesis by (simp only: distrib_right mult.assoc)
qed

lemma split4:
  "(c::nat) div 262144 * 262144 + c div 4096 mod 64 * 4096 + c div 64 mod 64 * 64 + c mod 64 = c"
proof -
  have "c div 262144 = c div 4096 div 64" by (simp add: div_mult2_eq)
  then show ?thesis using mul4096 [of "c div 4096"] split3 [of c] by simp
qed

lemma dec1: "c < 0x80 \<Longrightarrow> utf8_decode (chr c # rest) = decoded c (utf8_decode rest)"
  by (simp add: ord_chr)

lemma dec2:
  assumes "0x80 \<le> c" "c < 0x800"
  shows "utf8_decode (chr (0xC0 + c div 64) # chr (0x80 + c mod 64) # rest)
           = decoded c (utf8_decode rest)"
proof -
  have 3: "2 \<le> c div 64" "c div 64 < 32" using assms by auto
  have 1: "ord (chr (0xC0 + c div 64)) = 0xC0 + c div 64"
    using 3 by (intro ord_chr) simp
  have 2: "ord (chr (0x80 + c mod 64)) = 0x80 + c mod 64"
    by (intro ord_chr) simp
  show ?thesis
    using 3 by (simp add: 1 2 is_cont_def)
qed

lemma dec3:
  assumes "0x800 \<le> c" "c < 0x10000" "\<not> is_surrogate c"
  shows "utf8_decode (chr (0xE0 + c div 4096) # chr (0x80 + c div 64 mod 64)
                       # chr (0x80 + c mod 64) # rest)
           = decoded c (utf8_decode rest)"
proof -
  have 3: "c div 4096 < 16" using assms by simp
  have 1: "ord (chr (0xE0 + c div 4096)) = 0xE0 + c div 4096"
    using 3 by (intro ord_chr) simp
  have 2: "ord (chr (0x80 + c div 64 mod 64)) = 0x80 + c div 64 mod 64"
    "ord (chr (0x80 + c mod 64)) = 0x80 + c mod 64"
    by (intro ord_chr; simp)+
  show ?thesis
    using 3 assms by (simp add: 1 2 split3 is_cont_def)
qed

lemma dec4:
  assumes "0x10000 \<le> c" "c < 0x110000"
  shows "utf8_decode (chr (0xF0 + c div 262144) # chr (0x80 + c div 4096 mod 64)
                       # chr (0x80 + c div 64 mod 64) # chr (0x80 + c mod 64) # rest)
           = decoded c (utf8_decode rest)"
proof -
  have 3: "c div 262144 < 5" using assms by simp
  have 1: "ord (chr (0xF0 + c div 262144)) = 0xF0 + c div 262144"
    using 3 by (intro ord_chr) simp
  have 2: "ord (chr (0x80 + c div 4096 mod 64)) = 0x80 + c div 4096 mod 64"
    "ord (chr (0x80 + c div 64 mod 64)) = 0x80 + c div 64 mod 64"
    "ord (chr (0x80 + c mod 64)) = 0x80 + c mod 64"
    by (intro ord_chr; simp)+
  show ?thesis
    using 3 assms by (simp add: 1 2 split4 is_cont_def)
qed

lemma decode_encode_cp:
  assumes "encode_cp c = Inr bs"
  shows "utf8_decode (bs @ rest) = decoded c (utf8_decode rest)"
proof -
  consider (a) "c < 0x80" | (b) "0x80 \<le> c" "c < 0x800"
    | (c) "0x800 \<le> c" "c < 0x10000" "\<not> is_surrogate c"
    | (d) "0x10000 \<le> c" "c < 0x110000" "\<not> is_surrogate c"
    using assms by (cases "c < 0x80"; cases "c < 0x800"; cases "c < 0x10000"; cases "c < 0x110000";
        cases "is_surrogate c"; simp add: encode_cp_def)
  then show ?thesis
  proof cases
    case a
    with assms have "bs = [chr c]"
      by (simp add: encode_cp_def)
    with dec1 [OF a] show ?thesis by simp
  next
    case b
    with assms have "bs = [chr (0xC0 + c div 64), chr (0x80 + c mod 64)]"
      by (simp add: encode_cp_def)
    with dec2 [OF b] show ?thesis by simp
  next
    case c
    with assms have "bs = [chr (0xE0 + c div 4096), chr (0x80 + c div 64 mod 64), chr (0x80 + c mod 64)]"
      by (simp add: encode_cp_def)
    with dec3 [OF c] show ?thesis by simp
  next
    case d
    with assms have "bs = [chr (0xF0 + c div 262144), chr (0x80 + c div 4096 mod 64),
             chr (0x80 + c div 64 mod 64), chr (0x80 + c mod 64)]"
      by (simp add: encode_cp_def)
    with dec4 [OF d(1,2)] show ?thesis by simp
  qed
qed

lemma utf8_roundtrip: "utf8_encode s = Inr bs \<Longrightarrow> utf8_decode bs = Inr s"
proof (induction s arbitrary: bs)
  case Nil
  then show ?case by simp
next
  case (Cons c cs)
  then obtain b r where b: "encode_cp c = Inr b" and r: "utf8_encode cs = Inr r" and bs: "bs = b @ r"
    by (auto split: sum.splits)
  show ?case
    unfolding bs using decode_encode_cp [OF b, of r] Cons.IH [OF r] by (simp add: decoded_def)
qed

lemma utf8_encode_total:
  "is_str s \<Longrightarrow> encodable s \<Longrightarrow> \<exists>bs. utf8_encode s = Inr bs"
  by (induction s) (auto simp: is_str_def encodable_def encode_cp_def)

lemma utf8_encode_surrogate:
  "\<not> encodable s \<Longrightarrow> \<exists>e. utf8_encode s = Inl e"
  by (induction s) (auto simp: encodable_def encode_cp_def is_surrogate_def split: sum.splits)

lemma utf8_decode_ascii: "ascii bs \<Longrightarrow> utf8_decode bs = Inr (lit bs)"
  by (induction bs) (simp_all add: ascii_def decoded_def lit_simps)

lemma utf8_encode_ascii: "ascii bs \<Longrightarrow> utf8_encode (lit bs) = Inr bs"
  by (induction bs) (simp_all add: ascii_def encode_cp_def lit_simps)


lemma decoded_Inr: "decoded c r = Inr t \<Longrightarrow> \<exists>t'. r = Inr t' \<and> t = c # t'"
  by (cases r) (auto simp: decoded_def)

lemma utf8_decode_valid:
  "utf8_decode b = Inr t \<Longrightarrow> \<forall>c\<in>set t. c < 0x110000 \<and> \<not> is_surrogate c"
proof (induction b arbitrary: t rule: utf8_decode.induct)
  case 1
  then show ?case by simp
next
  case (2 b0 bs)
  consider (a) "ord b0 < 0x80"
    | (b) "\<not> ord b0 < 0x80" "0xC2 \<le> ord b0 \<and> ord b0 < 0xE0"
    | (c) "\<not> ord b0 < 0x80" "\<not> (0xC2 \<le> ord b0 \<and> ord b0 < 0xE0)" "0xE0 \<le> ord b0 \<and> ord b0 < 0xF0"
    | (d) "\<not> ord b0 < 0x80" "\<not> (0xC2 \<le> ord b0 \<and> ord b0 < 0xE0)"
          "\<not> (0xE0 \<le> ord b0 \<and> ord b0 < 0xF0)" "0xF0 \<le> ord b0 \<and> ord b0 < 0xF5"
    | (e) "\<not> ord b0 < 0x80" "\<not> (0xC2 \<le> ord b0 \<and> ord b0 < 0xE0)"
          "\<not> (0xE0 \<le> ord b0 \<and> ord b0 < 0xF0)" "\<not> (0xF0 \<le> ord b0 \<and> ord b0 < 0xF5)"
    by blast
  then show ?case
  proof cases
    case a
    with "2.prems" obtain t' where t': "utf8_decode bs = Inr t'" "t = ord b0 # t'"
      by (auto dest: decoded_Inr)
    from "2.IH"(1) [OF a t'(1)] a t'(2) show ?thesis
      by (simp add: is_surrogate_def)
  next
    case b
    with "2.prems" obtain b1 r t' where bs: "bs = b1 # r" and c1: "is_cont b1"
      and t': "utf8_decode r = Inr t'" "t = ((ord b0 - 0xC0) * 64 + (ord b1 - 0x80)) # t'"
      by (auto split: list.splits if_splits dest: decoded_Inr)
    have "(ord b0 - 0xC0) * 64 + (ord b1 - 0x80) < 0x800"
      using b c1 unfolding is_cont_def by arith
    with "2.IH"(2) [OF b bs c1 t'(1)] t'(2) show ?thesis
      by (simp add: is_surrogate_def)
  next
    case c
    with "2.prems" obtain b1 b2 r t' where bs: "bs = b1 # b2 # r"
      and c1: "is_cont b1 \<and> is_cont b2
                \<and> 0x800 \<le> (ord b0 - 0xE0) * 4096 + (ord b1 - 0x80) * 64 + (ord b2 - 0x80)
                \<and> \<not> is_surrogate ((ord b0 - 0xE0) * 4096 + (ord b1 - 0x80) * 64 + (ord b2 - 0x80))"
      and t': "utf8_decode r = Inr t'"
        "t = ((ord b0 - 0xE0) * 4096 + (ord b1 - 0x80) * 64 + (ord b2 - 0x80)) # t'"
      by (auto split: list.splits if_splits dest: decoded_Inr)
    have "(ord b0 - 0xE0) * 4096 + (ord b1 - 0x80) * 64 + (ord b2 - 0x80) < 0x10000"
      using c c1 unfolding is_cont_def by arith
    with "2.IH"(3) [OF c bs _ c1 t'(1)] t'(2) c1 show ?thesis
      by simp
  next
    case d
    with "2.prems" obtain b1 b2 b3 r t' where bs: "bs = b1 # b2 # b3 # r"
      and c1: "is_cont b1 \<and> is_cont b2 \<and> is_cont b3
                \<and> 0x10000 \<le> (ord b0 - 0xF0) * 262144 + (ord b1 - 0x80) * 4096
                               + (ord b2 - 0x80) * 64 + (ord b3 - 0x80)
                \<and> (ord b0 - 0xF0) * 262144 + (ord b1 - 0x80) * 4096
                     + (ord b2 - 0x80) * 64 + (ord b3 - 0x80) < 0x110000"
      and t': "utf8_decode r = Inr t'"
        "t = ((ord b0 - 0xF0) * 262144 + (ord b1 - 0x80) * 4096
                             + (ord b2 - 0x80) * 64 + (ord b3 - 0x80)) # t'"
      by (auto split: list.splits if_splits dest: decoded_Inr)
    from "2.IH"(4) [OF d bs _ _ c1 t'(1)] t'(2) c1 show ?thesis
      by (simp add: is_surrogate_def)
  next
    case e
    with "2.prems" show ?thesis by simp
  qed
qed


section \<open>Lines of a text\<close>

lemma LF_neq_CR: "LF \<noteq> CR" "CR \<noteq> LF"
  by (simp_all add: LF_def CR_def)

lemma valid_LF: "LF < 0x110000 \<and> \<not> is_surrogate LF"
  by (simp add: LF_def is_surrogate_def)

lemma split_nl_not_Nil: "split_nl s \<noteq> []"
  by (induction s) (auto split: list.splits)

lemma split_nl_chars: "l \<in> set (split_nl s) \<Longrightarrow> set l \<subseteq> set s - {LF}"
proof (induction s arbitrary: l)
  case Nil
  then show ?case by simp
next
  case (Cons c cs)
  obtain a as where sp: "split_nl cs = a # as"
    using split_nl_not_Nil [of cs] by (cases "split_nl cs") auto
  have a: "set a \<subseteq> set cs - {LF}" using Cons.IH [of a] sp by simp
  have as: "\<And>m. m \<in> set as \<Longrightarrow> set m \<subseteq> set cs - {LF}"
    using Cons.IH sp by simp
  show ?case
  proof (cases "c = LF")
    case True
    with Cons.prems Cons.IH show ?thesis by auto
  next
    case False
    with Cons.prems sp have "l = c # a \<or> l \<in> set as" by auto
    then show ?thesis using a as False by auto
  qed
qed

lemma universal_newlines_no_CR: "CR \<notin> set (universal_newlines s)"
  by (induction s rule: universal_newlines.induct) (auto simp: LF_neq_CR)

lemma universal_newlines_id: "CR \<notin> set s \<Longrightarrow> universal_newlines s = s"
  by (induction s rule: universal_newlines.induct) auto

lemma universal_newlines_chars: "set (universal_newlines s) \<subseteq> insert LF (set s)"
  by (induction s rule: universal_newlines.induct) auto

lemma split_join_nl:
  "ls \<noteq> [] \<Longrightarrow> \<forall>l\<in>set ls. LF \<notin> set l \<Longrightarrow> split_nl (join_nl ls) = ls"
proof (induction ls rule: join_nl.induct)
  case 1
  then show ?case by simp
next
  case (2 l)
  then show ?case by (induction l) auto
next
  case (3 l m ls)
  from 3 have ih: "split_nl (join_nl (m # ls)) = m # ls" by simp
  from 3 have "LF \<notin> set l" by simp
  then show ?case using ih by (induction l) auto
qed

lemma join_nl_chars: "set (join_nl ls) \<subseteq> insert LF (\<Union>(set ` set ls))"
  by (induction ls rule: join_nl.induct) auto

lemma startswith_self [simp]: "startswith (k @ lit ''='' @ v) (k @ lit ''='')"
  by (simp add: startswith_def)

lemma not_startswith_Nil [simp]: "\<not> startswith [] (k @ lit ''='')"
  by (simp add: startswith_def lit_def)

lemma replace_first_set:
  "replace_first k v ls = (ls', u) \<Longrightarrow> set ls' \<subseteq> insert (k @ lit ''='' @ v) (set ls)"
  by (induction ls arbitrary: ls' u) (auto split: if_splits prod.splits)

lemma replace_first_lines_for:
  "replace_first k v ls = (ls', u) \<Longrightarrow>
     (if u then lines_for k ls' = (k @ lit ''='' @ v) # tl (lines_for k ls) \<and> lines_for k ls \<noteq> []
      else ls' = ls \<and> lines_for k ls = [])"
proof (induction ls arbitrary: ls' u)
  case Nil
  then show ?case by (simp add: lines_for_def)
next
  case (Cons l ls)
  show ?case
  proof (cases "startswith l (k @ lit ''='')")
    case True
    with Cons.prems show ?thesis
      by (auto simp: lines_for_def)
  next
    case False
    obtain ms w where r: "replace_first k v ls = (ms, w)" by (cases "replace_first k v ls")
    from Cons.IH [OF r] False Cons.prems r show ?thesis
      by (auto simp: lines_for_def split: if_splits)
  qed
qed

lemma lines_for_update_lines:
  "lines_for k (update_lines k v ls) = (k @ lit ''='' @ v) # tl (lines_for k ls)"
proof -
  obtain ms w where r: "replace_first k v ls = (ms, w)" by (cases "replace_first k v ls")
  from replace_first_lines_for [OF r] r show ?thesis
    by (auto simp: update_lines_def lines_for_def split: if_splits)
qed

lemma update_lines_not_Nil: "update_lines k v ls \<noteq> []"
proof -
  obtain ms w where r: "replace_first k v ls = (ms, w)" by (cases "replace_first k v ls")
  from replace_first_lines_for [OF r] r show ?thesis
    by (auto simp: update_lines_def lines_for_def split: if_splits)
qed

lemma update_lines_set: "set (update_lines k v ls) \<subseteq> insert (k @ lit ''='' @ v) (set ls)"
proof -
  obtain ms w where r: "replace_first k v ls = (ms, w)" by (cases "replace_first k v ls")
  from replace_first_set [OF r] r show ?thesis
    by (auto simp: update_lines_def split: if_splits)
qed

section \<open>Properties of the CredentialStore\<close>

lemma env_lines_lines_for:
  "lines_for k (env_lines fs) = lines_for k (split_nl (env_content fs))"
  by (auto simp: env_lines_def env_content_def lines_for_def split: option.splits sum.splits)

lemma env_content_chars:
  assumes c: "c \<in> set (env_content fs)"
  shows "c \<noteq> CR \<and> c < 0x110000 \<and> \<not> is_surrogate c"
proof (cases "fs env_file")
  case None
  with c show ?thesis by (simp add: env_content_def)
next
  case (Some f)
  show ?thesis
  proof (cases "utf8_decode (content f)")
    case (Inl e)
    with c Some show ?thesis by (simp add: env_content_def read_text_def)
  next
    case (Inr s)
    with Some have e: "env_content fs = universal_newlines s"
      by (simp add: env_content_def read_text_def)
    from c e have "c \<noteq> CR" using universal_newlines_no_CR [of s] by auto
    moreover from c e have "c = LF \<or> c \<in> set s" using universal_newlines_chars [of s] by auto
    ultimately show ?thesis using utf8_decode_valid [OF Inr] valid_LF by auto
  qed
qed

lemma update_env_var_other: "p \<noteq> env_file \<Longrightarrow> snd (update_env_var fs k v) p = fs p"
  by (simp add: update_env_var_def write_text_def open_write_def split: option.splits sum.splits)

lemma update_env_var_ok:
  assumes k: "nl_free k" "is_str k" "encodable k"
    and v: "nl_free v" "is_str v" "encodable v"
    and istext: "env_is_text fs"
  shows "\<exists>fs'. update_env_var fs k v = (Inr (), fs')
           \<and> env_lines fs' = update_lines k v (split_nl (env_content fs))
           \<and> env_content fs' = join_nl (update_lines k v (split_nl (env_content fs)))
           \<and> env_is_text fs'"
proof -
  let ?ls = "update_lines k v (split_nl (env_content fs))"
  have eq: "61 < (0x110000::nat) \<and> \<not> is_surrogate 61" by (simp add: is_surrogate_def)
  have kv: "\<forall>c\<in>set (k @ lit ''='' @ v). c \<noteq> LF \<and> c \<noteq> CR \<and> c < 0x110000 \<and> \<not> is_surrogate c"
    using k v valid_iff [of k] valid_iff [of v] eq
    by (auto simp: nl_free_def LF_def CR_def lit_def ord_def)
  have lines: "\<forall>l\<in>set ?ls. \<forall>c\<in>set l. c \<noteq> LF \<and> c \<noteq> CR \<and> c < 0x110000 \<and> \<not> is_surrogate c"
  proof (intro ballI)
    fix l c assume l: "l \<in> set ?ls" and c: "c \<in> set l"
    from l have "l = k @ lit ''='' @ v \<or> l \<in> set (split_nl (env_content fs))"
      using update_lines_set [of k v "split_nl (env_content fs)"] by auto
    then show "c \<noteq> LF \<and> c \<noteq> CR \<and> c < 0x110000 \<and> \<not> is_surrogate c"
    proof
      assume "l = k @ lit ''='' @ v"
      with kv c show ?thesis by blast
    next
      assume "l \<in> set (split_nl (env_content fs))"
      then have "c \<in> set (env_content fs) \<and> c \<noteq> LF"
        using split_nl_chars [of l "env_content fs"] c by auto
      then show ?thesis using env_content_chars [of c fs] by simp
    qed
  qed
  have joined: "\<forall>c\<in>set (join_nl ?ls). c \<noteq> CR \<and> c < 0x110000 \<and> \<not> is_surrogate c"
  proof
    fix c assume "c \<in> set (join_nl ?ls)"
    then have "c = LF \<or> (\<exists>l\<in>set ?ls. c \<in> set l)" using join_nl_chars [of ?ls] by auto
    then show "c \<noteq> CR \<and> c < 0x110000 \<and> \<not> is_surrogate c"
      using lines valid_LF LF_neq_CR by auto
  qed
  then obtain b where b: "utf8_encode (join_nl ?ls) = Inr b"
    using utf8_encode_total [of "join_nl ?ls"] valid_iff [of "join_nl ?ls"] by blast
  have rd: "(case fs env_file of None \<Rightarrow> Inr [] | Some f \<Rightarrow> read_text f) = Inr (env_content fs)"
    using istext
    by (auto simp: env_is_text_def env_content_def read_text_def split: option.splits sum.splits)
  let ?fs' = "fs(env_file \<mapsto> \<lparr>content = b,
                 mode = (case fs env_file of None \<Rightarrow> mode_0o644 | Some f \<Rightarrow> mode f)\<rparr>)"
  have upd: "update_env_var fs k v = (Inr (), ?fs')"
    by (simp add: update_env_var_def rd write_text_def b)
  have "CR \<notin> set (join_nl ?ls)" using joined by blast
  then have un: "universal_newlines (join_nl ?ls) = join_nl ?ls"
    by (rule universal_newlines_id)
  have rt: "read_text \<lparr>content = b,
                 mode = (case fs env_file of None \<Rightarrow> mode_0o644 | Some f \<Rightarrow> mode f)\<rparr>
              = Inr (join_nl ?ls)"
    by (simp add: read_text_def utf8_roundtrip [OF b] un)
  have sj: "split_nl (join_nl ?ls) = ?ls"
    using lines update_lines_not_Nil by (intro split_join_nl) auto
  have "env_lines ?fs' = ?ls" by (simp add: env_lines_def rt sj)
  moreover have "env_content ?fs' = join_nl ?ls" by (simp add: env_content_def rt)
  moreover have "env_is_text ?fs'" by (simp add: env_is_text_def utf8_roundtrip [OF b])
  ultimately show ?thesis using upd by blast
qed

lemmas text_eval = lit_def ord_def chr_def LF_def CR_def newline_def read_text_def write_text_def
  open_write_def open_read_def decoded_def encode_cp_def is_surrogate_def startswith_def
  char_of_def bit_Suc_0_iff

text \<open>
  Claim C4, as stated: for every backing file and every key \<open>K\<close>, \<open>update(K, V1)\<close> then
  \<open>update(K, V2)\<close> leaves exactly one line for \<open>K\<close>, with value \<open>V2\<close>. It fails on a
  backing file that already holds two lines for \<open>K\<close>: \<^verbatim>\<open>_update_env_var\<close> replaces the
  first one and breaks out of the loop, so the second one stays.
\<close>

theorem update_twice_duplicate_counterexample:
  "update_env_var fs_dup (lit ''K'') (lit ''1'')
     = (Inr (), [env_file \<mapsto> \<lparr>content = ''K=1'' @ [newline] @ ''K=b'', mode = mode_0o644\<rparr>])
   \<and> update_env_var [env_file \<mapsto> \<lparr>content = ''K=1'' @ [newline] @ ''K=b'', mode = mode_0o644\<rparr>]
        (lit ''K'') (lit ''2'')
     = (Inr (), [env_file \<mapsto> \<lparr>content = ''K=2'' @ [newline] @ ''K=b'', mode = mode_0o644\<rparr>])
   \<and> lines_for (lit ''K'')
        (env_lines [env_file \<mapsto> \<lparr>content = ''K=2'' @ [newline] @ ''K=b'', mode = mode_0o644\<rparr>])
     = [lit ''K=2'', lit ''K=b'']"
  by (simp add: fs_dup_def update_env_var_def update_lines_def env_lines_def lines_for_def
      text_eval)

text \<open>
  A value that holds a lone surrogate cannot be written at all: the encoder raises after
  the file has been opened for writing, the exception leaves \<^verbatim>\<open>_update_env_var\<close>, and
  the backing file is empty.
\<close>

lemma update_env_var_surrogate:
  "update_env_var fs_one (lit ''K'') [0xD800]
     = (Inl UnicodeEncodeError, [env_file \<mapsto> \<lparr>content = [], mode = mode_0o644\<rparr>])"
  by (simp add: fs_one_def update_env_var_def update_lines_def text_eval)

text \<open>
  Claim C4, amended: when the backing file is absent or is UTF-8 text that, as read, has
  at most one line starting with \<open>K=\<close>, and \<open>K\<close>, \<open>V1\<close> and \<open>V2\<close> are strings without line
  feed, carriage return and lone surrogate, then \<open>update(K, V1)\<close> and \<open>update(K, V2)\<close>
  both return normally, and afterwards the file has exactly one line that starts with
  \<open>K=\<close>, and that line is \<open>K=V2\<close>.
\<close>

theorem update_twice:
  assumes "nl_free k" "is_str k" "encodable k"
    and "nl_free v1" "is_str v1" "encodable v1"
    and "nl_free v2" "is_str v2" "encodable v2"
    and "env_is_text fs"
    and "length (lines_for k (env_lines fs)) \<le> 1"
  shows "\<exists>fs1 fs2. update_env_var fs k v1 = (Inr (), fs1)
           \<and> update_env_var fs1 k v2 = (Inr (), fs2)
           \<and> lines_for k (env_lines fs2) = [k @ lit ''='' @ v2]"
proof -
  obtain fs1 where fs1: "update_env_var fs k v1 = (Inr (), fs1)"
    and l1: "env_lines fs1 = update_lines k v1 (split_nl (env_content fs))"
    and t1: "env_is_text fs1"
    using update_env_var_ok [OF assms(1-6,10)] by blast
  obtain fs2 where fs2: "update_env_var fs1 k v2 = (Inr (), fs2)"
    and l2: "env_lines fs2 = update_lines k v2 (split_nl (env_content fs1))"
    using update_env_var_ok [OF assms(1-3,7-9) t1] by blast
  have tl0: "tl (lines_for k (split_nl (env_content fs))) = []"
    using assms(11) unfolding env_lines_lines_for
    by (cases "lines_for k (split_nl (env_content fs))") auto
  have "lines_for k (env_lines fs1) = [k @ lit ''='' @ v1]"
    using l1 tl0 by (simp add: lines_for_update_lines)
  then have "lines_for k (split_nl (env_content fs1)) = [k @ lit ''='' @ v1]"
    by (simp add: env_lines_lines_for)
  then have "lines_for k (env_lines fs2) = [k @ lit ''='' @ v2]"
    using l2 by (simp add: lines_for_update_lines)
  with fs1 fs2 show ?thesis by blast
qed

theorem update_twice_witness:
  "nl_free (lit ''K'') \<and> is_str (lit ''K'') \<and> encodable (lit ''K'')
   \<and> nl_free (lit ''1'') \<and> is_str (lit ''1'') \<and> encodable (lit ''1'')
   \<and> nl_free [0x32, 0x20AC] \<and> is_str [0x32, 0x20AC] \<and> encodable [0x32, 0x20AC]
   \<and> env_is_text fs_one
   \<and> length (lines_for (lit ''K'') (env_lines fs_one)) \<le> 1
   \<and> (\<exists>fs1 fs2. update_env_var fs_one (lit ''K'') (lit ''1'') = (Inr (), fs1)
           \<and> update_env_var fs1 (lit ''K'') [0x32, 0x20AC] = (Inr (), fs2)
           \<and> lines_for (lit ''K'') (env_lines fs2) = [lit ''K'' @ lit ''='' @ [0x32, 0x20AC]])"
proof -
  have k: "nl_free (lit ''K'')" "is_str (lit ''K'')" "encodable (lit ''K'')"
    by (simp_all add: nl_free_def is_str_def encodable_def text_eval)
  have v1: "nl_free (lit ''1'')" "is_str (lit ''1'')" "encodable (lit ''1'')"
    by (simp_all add: nl_free_def is_str_def encodable_def text_eval)
  have v2: "nl_free [0x32, 0x20AC]" "is_str [0x32, 0x20AC]" "encodable [0x32, 0x20AC]"
    by (simp_all add: nl_free_def is_str_def encodable_def text_eval)
  have t: "env_is_text fs_one"
    by (simp add: fs_one_def env_is_text_def text_eval)
  have l: "length (lines_for (lit ''K'') (env_lines fs_one)) \<le> 1"
    by (simp add: fs_one_def env_lines_def lines_for_def text_eval)
  show ?thesis using k v1 v2 t l update_twice [OF k v1 v2 t l] by blast
qed

text \<open>
  Claim C5: \<^verbatim>\<open>_update_env_var\<close> writes the backing file and leaves the process
  environment as it is, whether it returns or raises, and \<^verbatim>\<open>get_telegram_credentials\<close>
  reads the process environment only; so an update of any key, with any value, changes
  no later read, of that key or of any other.
\<close>

theorem update_invisible_to_get:
  "environ (snd (do_update_env_var k v w)) = environ w
   \<and> getenv (environ (snd (do_update_env_var k v w))) k d = getenv (environ w) k d
   \<and> get_telegram_credentials (snd (do_update_env_var k v w)) = get_telegram_credentials w"
  by (simp add: do_update_env_var_def get_telegram_credentials_def split: prod.splits)


section \<open>Properties of the KeyManager\<close>

text \<open>
  Claim C6: when the master-key file exists, \<^verbatim>\<open>_get_or_create_encryption_key\<close> returns
  exactly the bytes stored in it and leaves the file system as it is, whatever key the
  generator would have produced; only when the file is absent is the fresh key written
  (owner-only) and returned.
\<close>

theorem key_never_regenerated:
  "(fs key_file = Some f \<longrightarrow> get_or_create_encryption_key fs fresh = (Inr (content f), fs))
   \<and> (fs key_file = None \<longrightarrow>
        get_or_create_encryption_key fs fresh
          = (Inr fresh, fs(key_file \<mapsto> \<lparr>content = fresh, mode = mode_0o600\<rparr>)))"
  by (simp add: get_or_create_encryption_key_def write_bytes_def chmod_def)

theorem key_never_regenerated_witness:
  "fs_with_key key_file = Some \<lparr>content = ''k0'', mode = mode_0o600\<rparr>
   \<and> get_or_create_encryption_key fs_with_key ''k1'' = (Inr ''k0'', fs_with_key)
   \<and> fs_without_key key_file = None
   \<and> get_or_create_encryption_key fs_without_key ''k1''
        = (Inr ''k1'', fs_without_key(key_file \<mapsto> \<lparr>content = ''k1'', mode = mode_0o600\<rparr>))"
proof -
  have a: "fs_with_key key_file = Some \<lparr>content = ''k0'', mode = mode_0o600\<rparr>"
    by (simp add: fs_with_key_def)
  have b: "fs_without_key key_file = None"
    by (simp add: fs_without_key_def key_file_def env_file_def)
  show ?thesis
    using a b
      key_never_regenerated [of fs_with_key "\<lparr>content = ''k0'', mode = mode_0o600\<rparr>" "''k1''"]
      key_never_regenerated [where fs = fs_without_key and fresh = "''k1''"]
    by simp
qed

text \<open>Once created, the key is returned again by every later call: it is not regenerated.\<close>

lemma key_stable:
  "get_or_create_encryption_key fs fresh = (Inr k, fs1) \<Longrightarrow>
   get_or_create_encryption_key fs1 fresh' = (Inr k, fs1)"
  by (auto simp: get_or_create_encryption_key_def write_bytes_def chmod_def Let_def
      split: option.splits)

subsection \<open>Base64\<close>

lemma ord_special: "ord (CHR ''+'') = 43" "ord (CHR ''/'') = 47" "ord PAD = 61"
  by (simp_all add: ord_def PAD_def)

lemma ord_b64_char:
  "i < 64 \<Longrightarrow> ord (b64_char i) =
     (if i < 26 then 65 + i else if i < 52 then 71 + i else if i < 62 then i - 4
      else if i = 62 then 43 else 47)"
  by (simp add: b64_char_def ord_chr ord_special)

lemma b64_index_char [simp]: "i < 64 \<Longrightarrow> b64_index (b64_char i) = Some i"
  unfolding b64_index_def by (auto simp: ord_b64_char)

lemma b64_char_not_pad [simp]: "i < 64 \<Longrightarrow> b64_char i \<noteq> PAD"
proof
  assume i: "i < 64" and "b64_char i = PAD"
  then have "ord (b64_char i) = 61" by (simp add: ord_special)
  with i show False by (simp add: ord_b64_char split: if_splits)
qed

lemma b64_char_ascii: "i < 64 \<Longrightarrow> ord (b64_char i) < 128"
  by (auto simp: ord_b64_char)

lemma PAD_ascii: "ord PAD < 128"
  by (simp add: ord_special)

lemma byte_div_bounds: "ord a div 4 < 64" "ord a div 16 < 16" "ord a div 64 < 4"
  by (rule less_mult_imp_div_less, simp)+

lemma sextet_bounds:
  "ord a mod 4 * 16 + ord b div 16 < 64" "ord a mod 4 * 16 < 64"
  "ord b mod 16 * 4 + ord c div 64 < 64" "ord b mod 16 * 4 < 64" "ord c mod 64 < 64"
proof -
  have 1: "ord a mod 4 < 4" by simp
  have 2: "ord b mod 16 < 16" by simp
  show "ord a mod 4 * 16 + ord b div 16 < 64" using 1 byte_div_bounds(2) [of b] by linarith
  show "ord a mod 4 * 16 < 64" using 1 by linarith
  show "ord b mod 16 * 4 + ord c div 64 < 64" using 2 byte_div_bounds(3) [of c] by linarith
  show "ord b mod 16 * 4 < 64" using 2 by linarith
  show "ord c mod 64 < 64" by simp
qed

lemma byte_nibbles:
  "ord b div 16 div 16 = 0" "ord b div 16 mod 16 = ord b div 16"
  "ord c div 64 div 4 = 0" "ord c div 64 mod 4 = ord c div 64"
  using byte_div_bounds(2) [of b] byte_div_bounds(3) [of c] by simp_all

lemma a2b_quad:
  "a2b_base64 0 l p (b64encode (a # b # c # r))
     = emitted a (emitted b (emitted c (a2b_base64 0 0 0 (b64encode r))))"
  by (simp add: byte_div_bounds sextet_bounds byte_nibbles)

lemma a2b_one: "a2b_base64 0 l p (b64encode [a]) = Inr [a]"
  by (simp add: byte_div_bounds sextet_bounds byte_nibbles emitted_def)

lemma a2b_two: "a2b_base64 0 l p (b64encode [a, b]) = Inr [a, b]"
  by (simp add: byte_div_bounds sextet_bounds byte_nibbles emitted_def)

lemma a2b_b64encode: "a2b_base64 0 l p (b64encode x) = Inr x"
proof (induction x arbitrary: l p rule: b64encode.induct)
  case 1
  show ?case by simp
next
  case (2 a)
  show ?case by (rule a2b_one)
next
  case (3 a b)
  show ?case by (rule a2b_two)
next
  case (4 a b c r)
  show ?case unfolding a2b_quad by (simp add: 4 emitted_def)
qed

lemma b64_roundtrip: "b64decode (b64encode x) = Inr x"
  by (simp add: b64decode_def a2b_b64encode)

lemma b64encode_ascii: "ascii (b64encode x)"
  by (induction x rule: b64encode.induct)
    (simp_all add: ascii_def b64_char_ascii PAD_ascii byte_div_bounds sextet_bounds)

subsection \<open>Encryption\<close>

text \<open>
  Claim C1, as stated: for every plaintext string \<open>P\<close>, decrypting the result of
  encrypting \<open>P\<close> returns \<open>P\<close>. A Python string may hold a lone surrogate (the string
  \<^verbatim>\<open>'\ud800'\<close>); \<^verbatim>\<open>value.encode()\<close> raises on it, so \<^verbatim>\<open>encrypt_credential\<close> has no
  result to decrypt.
\<close>

theorem encrypt_surrogate_counterexample:
  "encrypt_credential toy_fernet toy_key (CHR ''n'') [0xD800] = Inl UnicodeEncodeError"
  by (simp add: encrypt_credential_def toy_fernet_def toy_key_def encode_cp_def is_surrogate_def)

text \<open>
  Claim C1, amended: with a library whose \<^verbatim>\<open>Fernet\<close> decrypts every token it made to
  the plaintext of that token, and a master key the library accepts, for every
  plaintext string \<open>P\<close> that holds no surrogate \<^verbatim>\<open>encrypt_credential\<close> returns a string,
  whatever nonce the call draws, and \<^verbatim>\<open>decrypt_credential\<close> of that string returns
  exactly \<open>P\<close>.
\<close>

theorem encrypt_decrypt_roundtrip:
  assumes contract: "\<forall>f r m. fernet_decrypt lib f (fernet_encrypt lib f r m) = Inr m"
    and key: "fernet_new lib k = Inr f"
    and str: "is_str P" "encodable P"
  shows "\<exists>c. encrypt_credential lib k r P = Inr c \<and> decrypt_credential lib k c = Inr P"
proof -
  obtain plain where plain: "utf8_encode P = Inr plain"
    using utf8_encode_total [OF str] by blast
  let ?token = "fernet_encrypt lib f r plain"
  let ?c = "lit (b64encode ?token)"
  have enc: "encrypt_credential lib k r P = Inr ?c"
    by (simp add: encrypt_credential_def key plain utf8_decode_ascii [OF b64encode_ascii])
  have "decrypt_credential lib k ?c = utf8_decode plain"
    using contract
    by (simp add: decrypt_credential_def key utf8_encode_ascii [OF b64encode_ascii] b64_roundtrip)
  also have "\<dots> = Inr P" by (rule utf8_roundtrip [OF plain])
  finally show ?thesis using enc by blast
qed

theorem encrypt_decrypt_roundtrip_witness:
  "(\<forall>f r m. fernet_decrypt toy_fernet f (fernet_encrypt toy_fernet f r m) = Inr m)
   \<and> fernet_new toy_fernet toy_key = Inr toy_key
   \<and> is_str [0x68, 0x69, 0xE9, 0x20AC] \<and> encodable [0x68, 0x69, 0xE9, 0x20AC]
   \<and> (\<exists>c. encrypt_credential toy_fernet toy_key (CHR ''n'') [0x68, 0x69, 0xE9, 0x20AC] = Inr c
          \<and> decrypt_credential toy_fernet toy_key c = Inr [0x68, 0x69, 0xE9, 0x20AC])"
proof -
  have a: "\<forall>f r m. fernet_decrypt toy_fernet f (fernet_encrypt toy_fernet f r m) = Inr m"
    by (simp add: toy_fernet_def)
  have b: "fernet_new toy_fernet toy_key = Inr toy_key"
    by (simp add: toy_fernet_def toy_key_def)
  have c: "is_str [0x68, 0x69, 0xE9, 0x20AC]" "encodable [0x68, 0x69, 0xE9, 0x20AC]"
    by (simp_all add: is_str_def encodable_def is_surrogate_def)
  show ?thesis
    using a b c encrypt_decrypt_roundtrip [OF a b c, of "CHR ''n''"] by blast
qed

text \<open>The encoding that \<^verbatim>\<open>encrypt_credential\<close> puts around the token loses nothing: two
  calls whose tokens differ return different strings.\<close>

lemma encrypt_credential_distinct:
  assumes "fernet_new lib k = Inr f" "utf8_encode P = Inr plain"
    and "fernet_encrypt lib f r1 plain \<noteq> fernet_encrypt lib f r2 plain"
  shows "encrypt_credential lib k r1 P \<noteq> encrypt_credential lib k r2 P"
proof
  assume "encrypt_credential lib k r1 P = encrypt_credential lib k r2 P"
  then have "lit (b64encode (fernet_encrypt lib f r1 plain))
       = lit (b64encode (fernet_encrypt lib f r2 plain))"
    using assms(1,2) by (simp add: encrypt_credential_def utf8_decode_ascii [OF b64encode_ascii])
  then have "b64decode (b64encode (fernet_encrypt lib f r1 plain))
       = b64decode (b64encode (fernet_encrypt lib f r2 plain))" by simp
  with assms(3) show False by (simp add: b64_roundtrip)
qed


section \<open>Properties of the ServiceAccountValidator and the CredentialFacade\<close>

lemma read_text_mode [simp]: "read_text (f\<lparr>mode := m\<rparr>) = read_text f"
  by (simp add: read_text_def)

lemma loads_mode [simp]: "loads from_info (f\<lparr>mode := m\<rparr>) = loads from_info f"
  by (simp add: loads_def)

lemma sa_neq_env: "service_account_file \<noteq> env_file"
  by (simp add: service_account_file_def env_file_def)

lemma upload_neq: "''upload.json'' \<noteq> service_account_file" "''upload.json'' \<noteq> env_file"
  "service_account_file \<noteq> ''upload.json''" "env_file \<noteq> ''upload.json''"
  by (simp_all add: service_account_file_def env_file_def)

lemma texts_neq: "full_key_text \<noteq> partial_key_text"
  by (simp add: full_key_text_def partial_key_text_def)

lemma read_partial: "read_text \<lparr>content = partial_key_text, mode = m\<rparr> = Inr (lit partial_key_text)"
proof -
  have a: "ascii partial_key_text"
    by (simp add: partial_key_text_def ascii_def ord_def)
  have "CR \<notin> set (lit partial_key_text)"
    by (simp add: partial_key_text_def lit_def ord_def CR_def)
  then show ?thesis
    by (simp add: read_text_def utf8_decode_ascii [OF a] universal_newlines_id)
qed

lemma read_full: "read_text \<lparr>content = full_key_text, mode = m\<rparr> = Inr (lit full_key_text)"
proof -
  have a: "ascii full_key_text"
    by (simp add: full_key_text_def ascii_def ord_def)
  have "CR \<notin> set (lit full_key_text)"
    by (simp add: full_key_text_def lit_def ord_def CR_def)
  then show ?thesis
    by (simp add: read_text_def utf8_decode_ascii [OF a] universal_newlines_id)
qed

text \<open>
  Claim C10: \<^verbatim>\<open>get_service_account_credentials\<close> never lets an exception out (its result
  is always a value \<open>Inr r\<close>); it returns \<^verbatim>\<open>None\<close> when no key-material file is stored,
  and also whenever the stored file cannot be read as text or makes the loader raise.
\<close>

theorem get_sac_none:
  "(\<exists>r. get_service_account_credentials from_info fs = Inr r)
   \<and> (fs service_account_file = None \<longrightarrow> get_service_account_credentials from_info fs = Inr None)
   \<and> (\<forall>f. fs service_account_file = Some f \<and> \<not> loads from_info f
         \<longrightarrow> get_service_account_credentials from_info fs = Inr None)"
  by (auto simp: get_service_account_credentials_def get_service_account_credentials_try_def
      from_service_account_file_def open_read_def loads_def split: sum.splits option.splits)

theorem get_sac_none_witness:
  "fs_partial_upload service_account_file = None
   \<and> get_service_account_credentials sample_from_info fs_partial_upload = Inr None
   \<and> [service_account_file \<mapsto> \<lparr>content = partial_key_text, mode = mode_0o600\<rparr>] service_account_file
        = Some \<lparr>content = partial_key_text, mode = mode_0o600\<rparr>
   \<and> \<not> loads sample_from_info \<lparr>content = partial_key_text, mode = mode_0o600\<rparr>
   \<and> get_service_account_credentials sample_from_info
        [service_account_file \<mapsto> \<lparr>content = partial_key_text, mode = mode_0o600\<rparr>] = Inr None"
proof -
  have a: "fs_partial_upload service_account_file = None"
    by (simp add: fs_partial_upload_def upload_neq)
  have b: "\<not> loads sample_from_info \<lparr>content = partial_key_text, mode = mode_0o600\<rparr>"
    by (simp add: loads_def read_partial sample_from_info_def)
  show ?thesis
    using a b get_sac_none [of sample_from_info fs_partial_upload]
      get_sac_none [of sample_from_info
        "[service_account_file \<mapsto> \<lparr>content = partial_key_text, mode = mode_0o600\<rparr>]"]
    by simp
qed

lemma get_sac_total: "\<exists>r. get_service_account_credentials from_info fs = Inr r"
  by (simp add: get_service_account_credentials_def split: sum.splits)

lemma get_sac_ready:
  "get_service_account_credentials from_info fs = Inr r \<Longrightarrow> (r \<noteq> None) = sa_ready from_info fs"
  by (auto simp: get_service_account_credentials_def get_service_account_credentials_try_def
      from_service_account_file_def open_read_def sa_ready_def loads_def
      split: sum.splits option.splits if_splits)

lemma validate_char:
  "validate_all_credentials from_info w =
     Inr \<lparr>service_account = sa_ready from_info (files w), telegram = tg_ready (environ w)\<rparr>"
proof -
  obtain r where r: "get_service_account_credentials from_info (files w) = Inr r"
    using get_sac_total [of from_info "files w"] by blast
  show ?thesis
    using r get_sac_ready [OF r]
    by (simp add: validate_all_credentials_def get_telegram_credentials_def tg_ready_def)
qed

lemma py_getitem_Inr: "py_getitem d n = Inr v \<Longrightarrow> \<exists>kvs. d = JObj kvs \<and> map_of kvs n = Some v"
  by (cases d) (auto split: option.splits)

lemma all_in_JObj: "all_in fs (JObj kvs) = Inr (set fs \<subseteq> fst ` set kvs)"
  by (induction fs) auto

lemma update_env_var_keeps:
  "update_env_var fs k v = (r, fs') \<Longrightarrow> p \<noteq> env_file \<Longrightarrow> fs' p = fs p"
  using update_env_var_other [of p fs k v] by simp

text \<open>What the function has done when it returns \<^verbatim>\<open>True\<close>.\<close>

lemma set_sac_True:
  assumes "set_service_account_credentials jl fs src = (True, fs')"
  shows "\<exists>sf text kvs. fs src = Some sf \<and> src \<noteq> service_account_file
           \<and> read_text sf = Inr text \<and> jl text = Inr (JObj kvs)
           \<and> set required_fields \<subseteq> fst ` set kvs
           \<and> fs' service_account_file = Some (sf\<lparr>mode := mode_0o600\<rparr>)"
proof -
  have t: "set_service_account_credentials_try jl fs src = (Inr True, fs')"
    using assms
    by (auto simp: set_service_account_credentials_def split: prod.splits sum.splits)
  then obtain sf where sf: "fs src = Some sf"
    by (auto simp: set_service_account_credentials_try_def split: if_splits)
  have ne: "src \<noteq> service_account_file"
    using t sf by (auto simp: set_service_account_credentials_try_def copy2_def)
  let ?fs2 = "fs(service_account_file \<mapsto> sf\<lparr>mode := mode_0o600\<rparr>)"
  have c: "copy2 fs src service_account_file = Inr (fs(service_account_file \<mapsto> sf))"
    using sf ne by (simp add: copy2_def)
  have m: "chmod (fs(service_account_file \<mapsto> sf)) service_account_file mode_0o600 = Inr ?fs2"
    by (simp add: chmod_def)
  have o: "open_read ?fs2 service_account_file = read_text sf"
    by (simp add: open_read_def)
  from t sf c m o obtain tx where tx: "read_text sf = Inr tx"
    by (cases "read_text sf") (auto simp: set_service_account_credentials_try_def)
  from t sf c m o tx obtain d where d: "jl tx = Inr d"
    by (cases "jl tx") (auto simp: set_service_account_credentials_try_def)
  from t sf c m o tx d have a: "all_in required_fields d = Inr True"
    by (cases "all_in required_fields d")
      (auto simp: set_service_account_credentials_try_def split: if_splits)
  from t sf c m o tx d a obtain email where "py_getitem d (lit ''client_email'') = Inr email"
    by (cases "py_getitem d (lit ''client_email'')")
      (auto simp: set_service_account_credentials_try_def)
  then obtain kvs where kvs: "d = JObj kvs" by (auto dest: py_getitem_Inr)
  with a have req: "set required_fields \<subseteq> fst ` set kvs" by (simp add: all_in_JObj)
  obtain r3 fs3 where u3: "update_env_var ?fs2 (lit ''USE_SERVICE_ACCOUNT'') (lit ''true'') = (r3, fs3)"
    by (cases "update_env_var ?fs2 (lit ''USE_SERVICE_ACCOUNT'') (lit ''true'')")
  obtain r4 fs4 where u4: "update_env_var fs3 (lit ''SERVICE_ACCOUNT_FILE'') (lit service_account_file)
      = (r4, fs4)"
    by (cases "update_env_var fs3 (lit ''SERVICE_ACCOUNT_FILE'') (lit service_account_file)")
  from t sf c m o tx d a \<open>py_getitem d (lit ''client_email'') = Inr email\<close> u3 u4
  have "fs' = fs4"
    by (auto simp: set_service_account_credentials_try_def split: sum.splits)
  moreover have "fs4 service_account_file = ?fs2 service_account_file"
    using update_env_var_keeps [OF u3 sa_neq_env] update_env_var_keeps [OF u4 sa_neq_env] by simp
  ultimately show ?thesis using sf ne tx d kvs req by simp
qed

text \<open>
  Claim C2, as stated: key material that lacks a required field makes
  \<^verbatim>\<open>set_key_material\<close> fail with a SchemaError that names the field, and is not
  persisted into the restricted storage location. On an uploaded file without
  \<^verbatim>\<open>private_key\<close>, \<^verbatim>\<open>set_service_account_credentials\<close> returns a plain \<^verbatim>\<open>False\<close>, and
  the file has been copied to \<^verbatim>\<open>config/service_account.json\<close> (owner-only) before it
  was validated: the copy stays.
\<close>

theorem set_sac_persists_counterexample:
  "set_service_account_credentials sample_json_load fs_partial_upload ''upload.json''
     = (False, fs_partial_upload(service_account_file \<mapsto>
                 \<lparr>content = partial_key_text, mode = mode_0o600\<rparr>))"
  by (simp add: set_service_account_credentials_def set_service_account_credentials_try_def
      fs_partial_upload_def copy2_def chmod_def open_read_def read_partial
      sample_json_load_def required_fields_def upload_neq)

text \<open>
  Claim C2, amended: for key material (a JSON object) that lacks one of the four
  required fields, \<^verbatim>\<open>set_service_account_credentials\<close> returns \<^verbatim>\<open>False\<close>, and the
  backing file of the CredentialStore is as it was before the call: the two entries
  are written only when all four fields are present.
\<close>

theorem set_sac_missing_field:
  assumes "fs src = Some sf"
    and "read_text sf = Inr text"
    and "json_load text = Inr (JObj kvs)"
    and "field \<in> set required_fields"
    and "field \<notin> fst ` set kvs"
  shows "fst (set_service_account_credentials json_load fs src) = False
         \<and> snd (set_service_account_credentials json_load fs src) env_file = fs env_file"
proof -
  have a: "all_in required_fields (JObj kvs) = Inr False"
    using assms(4,5) by (auto simp: all_in_JObj)
  show ?thesis
  proof (cases "src = service_account_file")
    case True
    with assms(1) show ?thesis
      by (simp add: set_service_account_credentials_def set_service_account_credentials_try_def
          copy2_def)
  next
    case False
    with assms(1,2,3) a sa_neq_env show ?thesis
      by (simp add: set_service_account_credentials_def set_service_account_credentials_try_def
          copy2_def chmod_def open_read_def)
  qed
qed

theorem set_sac_missing_field_witness:
  "fs_partial_upload ''upload.json'' = Some \<lparr>content = partial_key_text, mode = mode_0o644\<rparr>
   \<and> read_text \<lparr>content = partial_key_text, mode = mode_0o644\<rparr> = Inr (lit partial_key_text)
   \<and> sample_json_load (lit partial_key_text)
       = Inr (JObj [(lit ''type'', JStr (lit ''service_account'')),
                    (lit ''project_id'', JStr (lit ''demo'')),
                    (lit ''client_email'', JStr (lit ''bot@demo.iam''))])
   \<and> lit ''private_key'' \<in> set required_fields
   \<and> lit ''private_key'' \<notin> fst ` set [(lit ''type'', JStr (lit ''service_account'')),
                    (lit ''project_id'', JStr (lit ''demo'')),
                    (lit ''client_email'', JStr (lit ''bot@demo.iam''))]
   \<and> fst (set_service_account_credentials sample_json_load fs_partial_upload ''upload.json'') = False
   \<and> snd (set_service_account_credentials sample_json_load fs_partial_upload ''upload.json'') env_file
       = fs_partial_upload env_file"
proof -
  have a: "fs_partial_upload ''upload.json'' = Some \<lparr>content = partial_key_text, mode = mode_0o644\<rparr>"
    by (simp add: fs_partial_upload_def)
  have b: "read_text \<lparr>content = partial_key_text, mode = mode_0o644\<rparr> = Inr (lit partial_key_text)"
    by (rule read_partial)
  have c: "sample_json_load (lit partial_key_text)
       = Inr (JObj [(lit ''type'', JStr (lit ''service_account'')),
                    (lit ''project_id'', JStr (lit ''demo'')),
                    (lit ''client_email'', JStr (lit ''bot@demo.iam''))])"
    by (simp add: sample_json_load_def)
  have d: "lit ''private_key'' \<in> set required_fields"
    by (simp add: required_fields_def)
  have e: "lit ''private_key'' \<notin> fst ` set [(lit ''type'', JStr (lit ''service_account'')),
                    (lit ''project_id'', JStr (lit ''demo'')),
                    (lit ''client_email'', JStr (lit ''bot@demo.iam''))]"
    by simp
  show ?thesis
    using a b c d e
      set_sac_missing_field [where fs = fs_partial_upload and src = "''upload.json''"
        and json_load = sample_json_load, OF a b c d e]
    by blast
qed


lemma nl_free_lit:
  "nl_free (lit ''USE_SERVICE_ACCOUNT'')" "nl_free (lit ''true'')"
  "nl_free (lit ''SERVICE_ACCOUNT_FILE'')" "nl_free (lit service_account_file)"
  by (simp_all add: nl_free_def lit_def ord_def LF_def CR_def service_account_file_def)

text \<open>The function returns \<^verbatim>\<open>True\<close> on every key-material object with the four fields,
  provided the backing file can be read.\<close>

lemma set_sac_success:
  assumes sf: "fs src = Some sf" and ne: "src \<noteq> service_account_file"
    and tx: "read_text sf = Inr tx" and d: "jl tx = Inr (JObj kvs)"
    and req: "set required_fields \<subseteq> fst ` set kvs"
    and istext: "env_is_text fs"
  shows "fst (set_service_account_credentials jl fs src) = True"
proof -
  let ?fs2 = "fs(service_account_file \<mapsto> sf\<lparr>mode := mode_0o600\<rparr>)"
  have c: "copy2 fs src service_account_file = Inr (fs(service_account_file \<mapsto> sf))"
    using sf ne by (simp add: copy2_def)
  have m: "chmod (fs(service_account_file \<mapsto> sf)) service_account_file mode_0o600 = Inr ?fs2"
    by (simp add: chmod_def)
  have o: "open_read ?fs2 service_account_file = Inr tx"
    using tx by (simp add: open_read_def)
  have a: "all_in required_fields (JObj kvs) = Inr True"
    using req by (simp add: all_in_JObj)
  have "lit ''client_email'' \<in> fst ` set kvs"
    using req by (auto simp: required_fields_def)
  then obtain email where g: "py_getitem (JObj kvs) (lit ''client_email'') = Inr email"
    by (cases "map_of kvs (lit ''client_email'')") (auto simp: map_of_eq_None_iff)
  have t2: "env_is_text ?fs2"
    using istext sa_neq_env by (simp add: env_is_text_def)
  obtain fs3 where u3: "update_env_var ?fs2 (lit ''USE_SERVICE_ACCOUNT'') (lit ''true'') = (Inr (), fs3)"
    and t3: "env_is_text fs3"
    using update_env_var_ok [OF nl_free_lit(1) valid_lit nl_free_lit(2) valid_lit t2] by blast
  obtain fs4 where u4: "update_env_var fs3 (lit ''SERVICE_ACCOUNT_FILE'') (lit service_account_file)
      = (Inr (), fs4)"
    using update_env_var_ok [OF nl_free_lit(3) valid_lit nl_free_lit(4) valid_lit t3] by blast
  show ?thesis
    using sf c m o d a g u3 u4
    by (simp add: set_service_account_credentials_def set_service_account_credentials_try_def)
qed

lemma set_fresh_ok:
  "do_set_service_account_credentials sample_json_load ''upload.json'' w_fresh = (True, w_configured)"
proof -
  have "fst (set_service_account_credentials sample_json_load fs_full_upload ''upload.json'') = True"
  proof (rule set_sac_success)
    show "fs_full_upload ''upload.json'' = Some \<lparr>content = full_key_text, mode = mode_0o644\<rparr>"
      by (simp add: fs_full_upload_def)
    show "''upload.json'' \<noteq> service_account_file" by (rule upload_neq)
    show "read_text \<lparr>content = full_key_text, mode = mode_0o644\<rparr> = Inr (lit full_key_text)"
      by (rule read_full)
    show "sample_json_load (lit full_key_text)
       = Inr (JObj [(lit ''type'', JStr (lit ''service_account'')),
                   (lit ''project_id'', JStr (lit ''demo'')),
                   (lit ''private_key'', JStr (lit ''k'')),
                   (lit ''client_email'', JStr (lit ''bot@demo.iam''))])"
      using texts_neq by (simp add: sample_json_load_def)
    show "set required_fields \<subseteq> fst ` set [(lit ''type'', JStr (lit ''service_account'')),
                   (lit ''project_id'', JStr (lit ''demo'')),
                   (lit ''private_key'', JStr (lit ''k'')),
                   (lit ''client_email'', JStr (lit ''bot@demo.iam''))]"
      by (simp add: required_fields_def)
    show "env_is_text fs_full_upload"
      by (simp add: env_is_text_def fs_full_upload_def upload_neq)
  qed
  then show ?thesis
    by (cases "set_service_account_credentials sample_json_load fs_full_upload ''upload.json''")
      (simp add: w_configured_def do_set_service_account_credentials_def w_fresh_def)
qed

lemma sample_never_loads: "\<not> loads sample_from_info f" "\<not> sa_ready sample_from_info fs"
  by (simp_all add: sa_ready_def loads_def sample_from_info_def split: sum.splits option.splits)

text \<open>
  Claim C8, as stated: configuring the service account flips its flag to true. After
  \<^verbatim>\<open>set_service_account_credentials\<close> has accepted key material with the four required
  fields and returned \<^verbatim>\<open>True\<close>, \<^verbatim>\<open>validate_all_credentials\<close> still reports
  \<^verbatim>\<open>service_account: False\<close>: the flag is the answer of the Google loader, which asks
  for a \<^verbatim>\<open>token_uri\<close> and a usable private key as well and raises on this material.
\<close>

theorem validate_after_set_counterexample:
  "do_set_service_account_credentials sample_json_load ''upload.json'' w_fresh = (True, w_configured)
   \<and> validate_all_credentials sample_from_info w_configured
       = Inr \<lparr>service_account = False, telegram = False\<rparr>"
proof -
  have "validate_all_credentials sample_from_info w_configured
       = Inr \<lparr>service_account = False, telegram = False\<rparr>"
    by (simp add: validate_char sa_ready_def sample_never_loads tg_ready_def getenv_def
        w_configured_def do_set_service_account_credentials_def w_fresh_def
        split: option.splits prod.splits)
  with set_fresh_ok show ?thesis by simp
qed

text \<open>
  Claim C8, amended: \<^verbatim>\<open>validate_all_credentials\<close> reports, for the service account,
  whether key material is stored and the Google loader accepts it, and for messaging,
  whether both the token and the chat id are non-empty. With no key material and no
  messaging variables both flags are false. A call of
  \<^verbatim>\<open>set_service_account_credentials\<close>, whatever it returns, leaves the messaging flag as
  it was; when it returns \<^verbatim>\<open>True\<close>, the service-account flag becomes true exactly when
  the loader accepts the uploaded file. Setting both messaging variables to non-empty
  values makes the messaging flag true and leaves the service-account flag as it was.
\<close>

theorem validate_all_flags:
  "validate_all_credentials from_info w
     = Inr \<lparr>service_account = sa_ready from_info (files w), telegram = tg_ready (environ w)\<rparr>
   \<and> (files w service_account_file = None \<and> environ w (lit ''TELEGRAM_BOT_TOKEN'') = None
        \<and> environ w (lit ''TELEGRAM_CHAT_ID'') = None
      \<longrightarrow> validate_all_credentials from_info w = Inr \<lparr>service_account = False, telegram = False\<rparr>)
   \<and> (do_set_service_account_credentials json_load src w = (ok, w')
      \<longrightarrow> validate_all_credentials from_info w'
            = Inr \<lparr>service_account = sa_ready from_info (files w'), telegram = tg_ready (environ w)\<rparr>)
   \<and> (do_set_service_account_credentials json_load src w = (True, w'') \<and> files w src = Some sf
      \<longrightarrow> validate_all_credentials from_info w''
            = Inr \<lparr>service_account = loads from_info sf, telegram = tg_ready (environ w)\<rparr>)
   \<and> (t \<noteq> [] \<and> c \<noteq> []
      \<longrightarrow> validate_all_credentials from_info
             (w\<lparr>environ := (environ w)(lit ''TELEGRAM_BOT_TOKEN'' \<mapsto> t,
                                        lit ''TELEGRAM_CHAT_ID'' \<mapsto> c)\<rparr>)
            = Inr \<lparr>service_account = sa_ready from_info (files w), telegram = True\<rparr>)"
proof (intro conjI impI)
  show "validate_all_credentials from_info w
     = Inr \<lparr>service_account = sa_ready from_info (files w), telegram = tg_ready (environ w)\<rparr>"
    by (rule validate_char)
next
  assume "files w service_account_file = None \<and> environ w (lit ''TELEGRAM_BOT_TOKEN'') = None
        \<and> environ w (lit ''TELEGRAM_CHAT_ID'') = None"
  then show "validate_all_credentials from_info w = Inr \<lparr>service_account = False, telegram = False\<rparr>"
    by (simp add: validate_char sa_ready_def tg_ready_def getenv_def)
next
  assume "do_set_service_account_credentials json_load src w = (ok, w')"
  then have "environ w' = environ w"
    by (auto simp: do_set_service_account_credentials_def split: prod.splits)
  then show "validate_all_credentials from_info w'
            = Inr \<lparr>service_account = sa_ready from_info (files w'), telegram = tg_ready (environ w)\<rparr>"
    by (simp add: validate_char)
next
  assume a: "do_set_service_account_credentials json_load src w = (True, w'') \<and> files w src = Some sf"
  then obtain fs' where r: "set_service_account_credentials json_load (files w) src = (True, fs')"
    and w'': "w'' = w\<lparr>files := fs'\<rparr>"
    by (auto simp: do_set_service_account_credentials_def split: prod.splits)
  from set_sac_True [OF r] a have "fs' service_account_file = Some (sf\<lparr>mode := mode_0o600\<rparr>)"
    by auto
  then have "sa_ready from_info fs' = loads from_info sf" by (simp add: sa_ready_def)
  then show "validate_all_credentials from_info w''
            = Inr \<lparr>service_account = loads from_info sf, telegram = tg_ready (environ w)\<rparr>"
    by (simp add: validate_char w'')
next
  assume "t \<noteq> [] \<and> c \<noteq> []"
  then show "validate_all_credentials from_info
             (w\<lparr>environ := (environ w)(lit ''TELEGRAM_BOT_TOKEN'' \<mapsto> t,
                                        lit ''TELEGRAM_CHAT_ID'' \<mapsto> c)\<rparr>)
            = Inr \<lparr>service_account = sa_ready from_info (files w), telegram = True\<rparr>"
    by (simp add: validate_char tg_ready_def getenv_def)
qed

theorem validate_all_flags_witness:
  "files w_fresh service_account_file = None \<and> environ w_fresh (lit ''TELEGRAM_BOT_TOKEN'') = None
   \<and> environ w_fresh (lit ''TELEGRAM_CHAT_ID'') = None
   \<and> validate_all_credentials sample_from_info w_fresh
        = Inr \<lparr>service_account = False, telegram = False\<rparr>
   \<and> do_set_service_account_credentials sample_json_load ''upload.json'' w_fresh
        = (True, w_configured)
   \<and> files w_fresh ''upload.json'' = Some \<lparr>content = full_key_text, mode = mode_0o644\<rparr>
   \<and> validate_all_credentials sample_from_info w_configured
        = Inr \<lparr>service_account = loads sample_from_info \<lparr>content = full_key_text, mode = mode_0o644\<rparr>,
               telegram = False\<rparr>
   \<and> lit ''tok'' \<noteq> [] \<and> lit ''42'' \<noteq> []
   \<and> validate_all_credentials sample_from_info
        (w_fresh\<lparr>environ := (environ w_fresh)(lit ''TELEGRAM_BOT_TOKEN'' \<mapsto> lit ''tok'',
                                               lit ''TELEGRAM_CHAT_ID'' \<mapsto> lit ''42'')\<rparr>)
        = Inr \<lparr>service_account = False, telegram = True\<rparr>"
proof -
  have a: "files w_fresh service_account_file = None \<and> environ w_fresh (lit ''TELEGRAM_BOT_TOKEN'') = None
   \<and> environ w_fresh (lit ''TELEGRAM_CHAT_ID'') = None"
    by (simp add: w_fresh_def fs_full_upload_def upload_neq)
  have b: "files w_fresh ''upload.json'' = Some \<lparr>content = full_key_text, mode = mode_0o644\<rparr>"
    by (simp add: w_fresh_def fs_full_upload_def)
  have c: "lit ''tok'' \<noteq> []" "lit ''42'' \<noteq> []"
    by (simp_all add: lit_def)
  have d: "sa_ready sample_from_info (files w_fresh) = False" "tg_ready (environ w_fresh) = False"
    using a by (simp_all add: sa_ready_def tg_ready_def getenv_def)
  show ?thesis
    using a b c d set_fresh_ok sample_never_loads
      validate_all_flags [where from_info = sample_from_info and w = w_fresh
        and json_load = sample_json_load and src = "''upload.json''" and w' = w_configured
        and ok = True and w'' = w_configured
        and sf = "\<lparr>content = full_key_text, mode = mode_0o644\<rparr>"
        and t = "lit ''tok''" and c = "lit ''42''"]
    by simp
qed


section \<open>Properties of the OAuthTokenExchanger\<close>

lemma py_contains_getitem:
  "has_refresh_token d \<longleftrightarrow> (\<exists>v. py_getitem d (lit ''refresh_token'') = Inr v)"
  by (cases d) (auto simp: has_refresh_token_def split: option.splits)

lemma has_refresh_token_contains:
  "has_refresh_token d \<Longrightarrow> py_contains (lit ''refresh_token'') d = Inr True"
  by (cases d) (auto simp: has_refresh_token_def dest: map_of_SomeD weak_map_of_SomeI
      intro: rev_image_eqI)

lemma exchange_try_True:
  assumes "exchange_for_refresh_token_try render fs post = (Inr True, fs')"
  shows "\<exists>resp d v. post = Inr resp \<and> status_code resp = 200 \<and> response_json resp = Inr d
           \<and> has_refresh_token d \<and> py_getitem d (lit ''refresh_token'') = Inr v
           \<and> update_env_with_refresh_token fs (format_value render v) = (True, fs')"
proof (cases post)
  case (Inl e)
  with assms show ?thesis by (simp add: exchange_for_refresh_token_try_def)
next
  case (Inr resp)
  note post = this
  show ?thesis
  proof (cases "status_code resp = 200")
    case False
    with assms post show ?thesis by (simp add: exchange_for_refresh_token_try_def)
  next
    case True
    note st = this
    show ?thesis
    proof (cases "response_json resp")
      case (Inl e)
      with assms post st show ?thesis by (simp add: exchange_for_refresh_token_try_def)
    next
      case (Inr d)
      note js = this
      show ?thesis
      proof (cases "py_getitem d (lit ''refresh_token'')")
        case (Inl e)
        with assms post st js show ?thesis
          by (simp add: exchange_for_refresh_token_try_def split: sum.splits if_splits)
      next
        case (Inr v)
        then have h: "has_refresh_token d" by (auto simp: py_contains_getitem)
        have "update_env_with_refresh_token fs (format_value render v) = (True, fs')"
          using assms post st js Inr has_refresh_token_contains [OF h]
          by (simp add: exchange_for_refresh_token_try_def split: sum.splits prod.splits)
        with post st js Inr h show ?thesis by simp
      qed
    qed
  qed
qed

lemma exchange_post_raises:
  "exchange_for_refresh_token render fs (Inl e) = (False, fs)"
  by (simp add: exchange_for_refresh_token_def exchange_for_refresh_token_try_def)

lemma exchange_not_200:
  "status_code resp \<noteq> 200 \<Longrightarrow> exchange_for_refresh_token render fs (Inr resp) = (False, fs)"
  by (simp add: exchange_for_refresh_token_def exchange_for_refresh_token_try_def)

lemma exchange_not_json:
  "status_code resp = 200 \<Longrightarrow> response_json resp = Inl e \<Longrightarrow>
   exchange_for_refresh_token render fs (Inr resp) = (False, fs)"
  by (simp add: exchange_for_refresh_token_def exchange_for_refresh_token_try_def)

lemma exchange_lacking:
  assumes "status_code resp = 200" "response_json resp = Inr d" "\<not> has_refresh_token d"
  shows "exchange_for_refresh_token render fs (Inr resp) = (False, fs)"
proof -
  from assms(3) obtain e where g: "py_getitem d (lit ''refresh_token'') = Inl e"
    by (cases "py_getitem d (lit ''refresh_token'')") (auto simp: py_contains_getitem)
  show ?thesis
    using assms(1,2) g
    by (simp add: exchange_for_refresh_token_def exchange_for_refresh_token_try_def
        split: sum.splits)
qed

lemmas token_eval = update_env_with_refresh_token_def token_keys_def update_key_def
  sublist_code(3) text_eval

text \<open>
  Claim C3, as stated: the exchange reaches COMPLETE only when the response is HTTP 200
  with a non-empty refresh token. \<^verbatim>\<open>exchange_for_refresh_token\<close> tests
  \<^verbatim>\<open>'refresh_token' in token_data\<close>, the presence of the key: an HTTP 200 answer whose
  refresh token is the empty string is accepted, written to the backing file under both
  keys, and the function returns \<^verbatim>\<open>True\<close>.
\<close>

theorem exchange_empty_token_counterexample:
  "exchange_for_refresh_token (\<lambda>v. []) fs_env_a (Inr empty_token_response)
     = (True, [env_file \<mapsto>
          \<lparr>content = ''A=1'' @ [newline] @ ''GMAIL_REFRESH_TOKEN='' @ [newline]
                       @ ''GDRIVE_REFRESH_TOKEN='',
           mode = mode_0o600\<rparr>])"
  by (simp add: exchange_for_refresh_token_def exchange_for_refresh_token_try_def
      empty_token_response_def fs_env_a_def format_value_def token_eval)

text \<open>
  Claim C3, amended: the exchange returns \<^verbatim>\<open>True\<close> (COMPLETE) only when the response
  is HTTP 200, its JSON body is an object with a \<^verbatim>\<open>refresh_token\<close> key (whose value may
  be empty) and \<^verbatim>\<open>update_env_with_refresh_token\<close>, called with that value, has returned
  \<^verbatim>\<open>True\<close>, the file system being the one that call left. It returns \<^verbatim>\<open>False\<close>
  (FAILED) and leaves the file system as it was when \<^verbatim>\<open>requests.post\<close> raises, for
  every response with another status code, for every HTTP 200 response whose body is no
  JSON, and for every HTTP 200 response whose body has no such key.
\<close>

theorem exchange_complete_only:
  "(exchange_for_refresh_token render fs post = (True, fs') \<longrightarrow>
      (\<exists>resp d v. post = Inr resp \<and> status_code resp = 200 \<and> response_json resp = Inr d
          \<and> has_refresh_token d \<and> py_getitem d (lit ''refresh_token'') = Inr v
          \<and> update_env_with_refresh_token fs (format_value render v) = (True, fs')))
   \<and> exchange_for_refresh_token render fs (Inl e) = (False, fs)
   \<and> (status_code r1 \<noteq> 200 \<longrightarrow> exchange_for_refresh_token render fs (Inr r1) = (False, fs))
   \<and> (status_code r2 = 200 \<and> response_json r2 = Inl e2
        \<longrightarrow> exchange_for_refresh_token render fs (Inr r2) = (False, fs))
   \<and> (status_code r3 = 200 \<and> response_json r3 = Inr d3 \<and> \<not> has_refresh_token d3
        \<longrightarrow> exchange_for_refresh_token render fs (Inr r3) = (False, fs))"
proof (intro conjI impI)
  assume a: "exchange_for_refresh_token render fs post = (True, fs')"
  then have "exchange_for_refresh_token_try render fs post = (Inr True, fs')"
    by (auto simp: exchange_for_refresh_token_def split: prod.splits sum.splits)
  then show "\<exists>resp d v. post = Inr resp \<and> status_code resp = 200 \<and> response_json resp = Inr d
          \<and> has_refresh_token d \<and> py_getitem d (lit ''refresh_token'') = Inr v
          \<and> update_env_with_refresh_token fs (format_value render v) = (True, fs')"
    by (rule exchange_try_True)
next
  show "exchange_for_refresh_token render fs (Inl e) = (False, fs)"
    by (rule exchange_post_raises)
next
  assume "status_code r1 \<noteq> 200"
  then show "exchange_for_refresh_token render fs (Inr r1) = (False, fs)"
    by (rule exchange_not_200)
next
  assume "status_code r2 = 200 \<and> response_json r2 = Inl e2"
  then show "exchange_for_refresh_token render fs (Inr r2) = (False, fs)"
    using exchange_not_json by blast
next
  assume "status_code r3 = 200 \<and> response_json r3 = Inr d3 \<and> \<not> has_refresh_token d3"
  then show "exchange_for_refresh_token render fs (Inr r3) = (False, fs)"
    using exchange_lacking by blast
qed

theorem exchange_complete_only_witness:
  "exchange_for_refresh_token (\<lambda>v. []) fs_env_a (Inr good_token_response)
     = (True, [env_file \<mapsto>
          \<lparr>content = ''A=1'' @ [newline] @ ''GMAIL_REFRESH_TOKEN=1//0g'' @ [newline]
                       @ ''GDRIVE_REFRESH_TOKEN=1//0g'',
           mode = mode_0o600\<rparr>])
   \<and> status_code good_token_response = 200
   \<and> has_refresh_token (JObj [(lit ''access_token'', JStr (lit ''ya29'')),
                               (lit ''refresh_token'', JStr (lit ''1//0g''))])
   \<and> exchange_for_refresh_token (\<lambda>v. []) fs_env_a (Inl ConnectionError) = (False, fs_env_a)
   \<and> status_code denied_response \<noteq> 200
   \<and> exchange_for_refresh_token (\<lambda>v. []) fs_env_a (Inr denied_response) = (False, fs_env_a)
   \<and> status_code html_response = 200 \<and> response_json html_response = Inl JSONDecodeError
   \<and> exchange_for_refresh_token (\<lambda>v. []) fs_env_a (Inr html_response) = (False, fs_env_a)
   \<and> status_code no_refresh_response = 200
   \<and> response_json no_refresh_response = Inr (JObj [(lit ''access_token'', JStr (lit ''ya29''))])
   \<and> \<not> has_refresh_token (JObj [(lit ''access_token'', JStr (lit ''ya29''))])
   \<and> exchange_for_refresh_token (\<lambda>v. []) fs_env_a (Inr no_refresh_response) = (False, fs_env_a)"
proof -
  let ?fs' = "[env_file \<mapsto>
          \<lparr>content = ''A=1'' @ [newline] @ ''GMAIL_REFRESH_TOKEN=1//0g'' @ [newline]
                       @ ''GDRIVE_REFRESH_TOKEN=1//0g'',
           mode = mode_0o600\<rparr>]"
  have a: "exchange_for_refresh_token (\<lambda>v. []) fs_env_a (Inr good_token_response) = (True, ?fs')"
    by (simp add: exchange_for_refresh_token_def exchange_for_refresh_token_try_def
        good_token_response_def fs_env_a_def format_value_def token_eval)
  have b: "status_code denied_response \<noteq> 200"
    by (simp add: denied_response_def)
  have c: "status_code no_refresh_response = 200
     \<and> response_json no_refresh_response = Inr (JObj [(lit ''access_token'', JStr (lit ''ya29''))])
     \<and> \<not> has_refresh_token (JObj [(lit ''access_token'', JStr (lit ''ya29''))])"
    by (simp add: no_refresh_response_def has_refresh_token_def)
  have d: "status_code good_token_response = 200
     \<and> has_refresh_token (JObj [(lit ''access_token'', JStr (lit ''ya29'')),
                                 (lit ''refresh_token'', JStr (lit ''1//0g''))])"
    by (simp add: good_token_response_def has_refresh_token_def)
  have h: "status_code html_response = 200 \<and> response_json html_response = Inl JSONDecodeError"
    by (simp add: html_response_def)
  show ?thesis
    using a b c d h
      exchange_complete_only [where render = "\<lambda>v. []" and fs = fs_env_a
        and post = "Inr good_token_response" and fs' = ?fs' and e = ConnectionError
        and ?r1.0 = denied_response and ?r2.0 = html_response and ?e2.0 = JSONDecodeError
        and ?r3.0 = no_refresh_response
        and ?d3.0 = "JObj [(lit ''access_token'', JStr (lit ''ya29''))]"]
    by simp
qed

text \<open>
  That \<^verbatim>\<open>update_env_with_refresh_token\<close> returned \<^verbatim>\<open>True\<close> does not say that the token
  is in the file: on a backing file that mentions both keys in commented-out lines only,
  the exchange returns \<^verbatim>\<open>True\<close> and the file is what it was.
\<close>

lemma exchange_complete_nothing_saved:
  "exchange_for_refresh_token (\<lambda>v. []) fs_both_commented (Inr good_token_response)
     = (True, fs_both_commented)"
  by (simp add: exchange_for_refresh_token_def exchange_for_refresh_token_try_def
      good_token_response_def fs_both_commented_def format_value_def token_eval)

text \<open>
  Claim C9: after a successful save the backing file holds the token under both
  \<^verbatim>\<open>GMAIL_REFRESH_TOKEN\<close> and \<^verbatim>\<open>GDRIVE_REFRESH_TOKEN\<close>. The code decides between
  updating and adding by \<^verbatim>\<open>f"{key}=" in content\<close>, a substring test, and then replaces
  only a line that starts with the key. On a backing file whose only mention of
  \<^verbatim>\<open>GMAIL_REFRESH_TOKEN=\<close> is in a commented-out line, nothing is replaced and nothing
  is added: the function returns \<^verbatim>\<open>True\<close> and the file has no line for that key.
\<close>

theorem refresh_token_not_saved:
  "update_env_with_refresh_token fs_commented (lit ''tok'')
     = (True, [env_file \<mapsto>
          \<lparr>content = ''# GMAIL_REFRESH_TOKEN='' @ [newline] @ ''GDRIVE_REFRESH_TOKEN=tok'',
           mode = mode_0o600\<rparr>])
   \<and> lines_for (lit ''GMAIL_REFRESH_TOKEN'')
        (env_lines (snd (update_env_with_refresh_token fs_commented (lit ''tok'')))) = []"
  by (simp add: fs_commented_def token_eval env_lines_def lines_for_def)

end
